theory Spec2Isabelle
  imports Main "HOL-Library.FSet" "HOL-Library.Finite_Map" "HOL-Library.Multiset"
begin

section \<open>Python text\<close>

text \<open>
  A Python \<open>str\<close> is a sequence of Unicode code points and \<open>len\<close> counts code points,
  so page texts and recognition responses are lists of code points. Tags and messages
  that the pipeline only passes along (stage names, exception messages) are HOL strings.
\<close>

type_synonym pystr = "nat list"

definition lit :: "string \<Rightarrow> pystr" where
  "lit s = map of_char s"

text \<open>
  The code points that \<open>str.strip()\<close> and \<open>str.split()\<close> (both called without
  arguments) treat as whitespace, which is \<open>str.isspace\<close>.
\<close>

definition py_isspace :: "nat \<Rightarrow> bool" where
  "py_isspace c \<longleftrightarrow>
     (9 \<le> c \<and> c \<le> 13) \<or> (28 \<le> c \<and> c \<le> 32) \<or> c = 133 \<or> c = 160 \<or> c = 5760 \<or>
     (8192 \<le> c \<and> c \<le> 8202) \<or> c = 8232 \<or> c = 8233 \<or> c = 8239 \<or> c = 8287 \<or> c = 12288"

definition py_strip :: "pystr \<Rightarrow> pystr" where
  "py_strip s = rev (dropWhile py_isspace (rev (dropWhile py_isspace s)))"

text \<open>
  \<open>s.split()\<close>: the maximal runs of non-whitespace, in order. \<open>split_from w s\<close> scans
  \<open>s\<close> with \<open>w\<close> the word read so far.
\<close>

fun split_from :: "pystr \<Rightarrow> pystr \<Rightarrow> pystr list" where
  "split_from w [] = (if w = [] then [] else [w])"
| "split_from w (c # cs) =
     (if py_isspace c
      then (if w = [] then split_from [] cs else w # split_from [] cs)
      else split_from (w @ [c]) cs)"

definition py_split :: "pystr \<Rightarrow> pystr list" where
  "py_split s = split_from [] s"

definition startswith :: "pystr \<Rightarrow> pystr \<Rightarrow> bool" where
  "startswith s p \<longleftrightarrow> take (length p) s = p"

definition endswith :: "pystr \<Rightarrow> pystr \<Rightarrow> bool" where
  "endswith s p \<longleftrightarrow> length p \<le> length s \<and> drop (length s - length p) s = p"

section \<open>Extraction method selector\<close>

definition MIN_TEXT_LENGTH :: nat where
  "MIN_TEXT_LENGTH = 50"

definition MIN_WORDS :: nat where
  "MIN_WORDS = 10"

text \<open>
  \<open>check_page_has_text\<close> of both pipelines, as a function of \<open>page.get_text()\<close>:
  \<^verbatim>\<open>
    text_cleaned = text.strip()
    word_count = len(text_cleaned.split())
    return len(text_cleaned) >= MIN_TEXT_LENGTH and word_count >= MIN_WORDS
  \<close>
\<close>

definition check_page_has_text :: "pystr \<Rightarrow> bool" where
  "check_page_has_text text =
     (let text_cleaned = py_strip text;
          word_count = length (py_split text_cleaned)
      in MIN_TEXT_LENGTH \<le> length text_cleaned \<and> MIN_WORDS \<le> word_count)"

text \<open>
  The selector as the specification words it: the length of the embedded text itself
  against the character threshold, and its word count against the word threshold.
\<close>

definition spec_selects_conventional :: "pystr \<Rightarrow> bool" where
  "spec_selects_conventional text \<longleftrightarrow>
     MIN_TEXT_LENGTH \<le> length text \<and> MIN_WORDS \<le> length (py_split text)"

text \<open>A page text of ten four-letter words followed by the newline that ends the page.\<close>

definition ten_words :: pystr where
  "ten_words = lit ''aaaa bbbb cccc dddd eeee ffff gggg hhhh iiii jjjj''"

definition ten_words_nl :: pystr where
  "ten_words_nl = ten_words @ [10]"

section \<open>Recognition client\<close>

text \<open>
  What \<open>json.loads\<close> returns. Only the shape of a value matters to the pipeline, so a
  number keeps its literal.
\<close>

datatype json =
  JNull | JBool bool | JNum pystr | JStr pystr | JArr "json list" | JObj "(pystr \<times> json) list"

text \<open>An exception is represented by its message, \<open>str(e)\<close>.\<close>

type_synonym exn = string

text \<open>
  The outcomes of \<open>json.loads\<close>: the parsed value, \<open>JSONDecodeError\<close>, or another
  exception (\<open>RecursionError\<close> on deeply nested brackets, \<open>ValueError\<close> on an integer
  literal beyond the digit limit).
\<close>

datatype loads_outcome = Parsed json | JSONDecodeError | LoadsRaises exn

record metadata =
  md_pdf_name :: string
  md_page_number :: nat
  md_image_path :: "string \<times> nat"
  md_dpi :: nat
  md_extraction_method :: string
  md_ocr_engine :: string

text \<open>
  The result dictionary with the keys \<open>text\<close>, \<open>headings\<close>, \<open>tables\<close>, \<open>images\<close>,
  \<open>structure\<close>, \<open>raw_response\<close> and \<open>metadata\<close> (absent until the pipeline sets it).
  The time stamp \<open>processed_at\<close> is left out, here and in every record below.
\<close>

record ocr_result =
  res_text :: json
  res_headings :: json
  res_tables :: json
  res_images :: json
  res_structure :: json
  res_raw_response :: "pystr option"
  res_metadata :: "metadata option"

definition dict_get :: "(pystr \<times> json) list \<Rightarrow> pystr \<Rightarrow> json \<Rightarrow> json" where
  "dict_get kvs k d = (case map_of kvs k of None \<Rightarrow> d | Some v \<Rightarrow> v)"

definition default_structure :: json where
  "default_structure = JObj
     [(lit ''has_headings'', JBool False),
      (lit ''has_tables'', JBool False),
      (lit ''has_lists'', JBool False),
      (lit ''has_images'', JBool False),
      (lit ''document_type'', JStr (lit ''unknown''))]"

definition fence_json :: pystr where
  "fence_json = [96, 96, 96, 106, 115, 111, 110]"

definition fence :: pystr where
  "fence = [96, 96, 96]"

text \<open>The text handed to \<open>json.loads\<close>: the response stripped of a Markdown code fence.\<close>

definition clean_response :: "pystr \<Rightarrow> pystr" where
  "clean_response raw_response =
     (let c0 = py_strip raw_response;
          c1 = (if startswith c0 fence_json then drop 7 c0 else c0);
          c2 = (if startswith c1 fence then drop 3 c1 else c1);
          c3 = (if endswith c2 fence then take (length c2 - 3) c2 else c2)
      in py_strip c3)"

definition fallback_result :: "pystr \<Rightarrow> ocr_result" where
  "fallback_result raw_response =
     \<lparr>res_text = JStr raw_response, res_headings = JArr [], res_tables = JArr [],
      res_images = JArr [], res_structure = default_structure,
      res_raw_response = Some raw_response, res_metadata = None\<rparr>"

text \<open>The values on which \<open>len\<close> is defined: strings, lists and objects.\<close>

definition has_len :: "json \<Rightarrow> bool" where
  "has_len v = (case v of JStr _ \<Rightarrow> True | JArr _ \<Rightarrow> True | JObj _ \<Rightarrow> True | _ \<Rightarrow> False)"

text \<open>
  \<open>VertexAIGeminiClient.generate\<close>. \<open>loads\<close> is \<open>json.loads\<close>; \<open>resp\<close> is what loading
  the image, the remote call and \<open>response.text\<close> give: the response text or an
  exception. Only \<open>JSONDecodeError\<close> has the fallback: another exception of
  \<open>json.loads\<close>, the \<open>AttributeError\<close> of \<open>.get\<close> on a parsed value that is not an object,
  and the \<open>TypeError\<close> of the log line's \<open>len(result['text'])\<close> on a text without length
  reach the outer handler, which logs them and raises them again.
\<close>

definition generate :: "(pystr \<Rightarrow> loads_outcome) \<Rightarrow> exn + pystr \<Rightarrow> exn + ocr_result" where
  "generate loads resp =
     (case resp of
        Inl e \<Rightarrow> Inl e
      | Inr raw_response \<Rightarrow>
          (case loads (clean_response raw_response) of
             JSONDecodeError \<Rightarrow> Inr (fallback_result raw_response)
           | LoadsRaises e \<Rightarrow> Inl e
           | Parsed (JObj parsed_result) \<Rightarrow>
               (let result =
                      \<lparr>res_text = dict_get parsed_result (lit ''text'') (JStr []),
                       res_headings = dict_get parsed_result (lit ''headings'') (JArr []),
                       res_tables = dict_get parsed_result (lit ''tables'') (JArr []),
                       res_images = dict_get parsed_result (lit ''images'') (JArr []),
                       res_structure =
                         dict_get parsed_result (lit ''structure'') default_structure,
                       res_raw_response = Some raw_response, res_metadata = None\<rparr>
                in if has_len (res_text result) then Inr result
                   else Inl ''TypeError: object has no len()'')
           | Parsed _ \<Rightarrow> Inl ''AttributeError: object has no attribute get''))"

section \<open>Pipeline state and environment\<close>

text \<open>
  The files \<open>*.json\<close> of a document's results directory: the page artifacts
  \<open>{page}.json\<close> and any other file that the \<open>glob\<close> of the resumability check counts.
\<close>

datatype json_file = PageJson nat | OtherJson string

datatype file_content = Complete ocr_result | Incomplete

datatype page_ref = Page nat | NA

record error_record =
  err_pdf_file :: string
  err_page :: page_ref
  err_stage :: string
  err_error :: "string option"

datatype doc_status =
  Processing | Completed | CompletedWithErrors | Failed | SkippedAlreadyProcessed

text \<open>
  The statistics dictionary of one document. The dictionary returned for a skipped
  document has no key \<open>skipped_pages\<close>.
\<close>

record doc_stats =
  pdf_name :: string
  pdf_file :: string
  total_pages :: nat
  successful_pages :: nat
  failed_pages :: nat
  conventional_pages :: nat
  gemini_ocr_pages :: nat
  skipped_pages :: "nat option"
  status :: doc_status

text \<open>
  What the pipeline does to the outside world, in order: opening the document, and for
  a page (by its 1-based index) opening it, rendering it, taking a permit of the rate
  limiter, calling the recognition service, opening its result file for writing.
\<close>

datatype event =
  OpenDocument | OpenPage nat | RenderPage nat | AcquirePermit nat | Recognize nat
  | WriteResult nat

text \<open>
  The state a run works on, for one document: its results directory
  (\<open>None\<close> while the directory does not exist), the error list and the tracking list of
  the pipeline object, and the trace of events.
\<close>

record pstate =
  results_dir :: "(json_file, file_content) fmap option"
  errors :: "error_record list"
  processing_status :: "doc_stats list"
  trace :: "event list"

text \<open>
  How \<open>save_page_result\<close> fares: creating the directory may raise (outside the
  function's \<open>try\<close>), opening the file may raise (no file), dumping may raise (a file
  with part of the result).
\<close>

datatype save_outcome = SaveOk | MkdirFails exn | OpenFails exn | DumpFails exn

text \<open>
  The outside world of one page: what each call on it returns or raises. In order:
  \<open>result_file.exists()\<close> raising (for instance on a directory that may not be searched),
  the embedded text, opening the document at the page, rendering, entering the rate
  limiter, the recognition call, saving.
\<close>

record page_env =
  exists_check :: "exn option"
  embedded_text :: pystr
  open_page :: "exn option"
  render :: "exn option"
  acquire :: "exn option"
  response :: "exn + pystr"
  save :: save_outcome

record doc_env =
  env_pdf_name :: string
  env_pdf_file :: string
  open_precheck :: "exn + nat"
  open_document :: "exn + nat"
  temp_mkdir :: "exn option"
  pages :: "nat \<Rightarrow> page_env"
  json_loads :: "pystr \<Rightarrow> loads_outcome"

record page_result =
  pr_page :: nat
  pr_success :: bool
  pr_error :: "string option"
  pr_skipped :: bool

definition DPI :: nat where
  "DPI = 300"

definition log_event :: "event \<Rightarrow> pstate \<Rightarrow> pstate" where
  "log_event e s = s\<lparr>trace := trace s @ [e]\<rparr>"

definition add_error :: "error_record \<Rightarrow> pstate \<Rightarrow> pstate" where
  "add_error r s = s\<lparr>errors := errors s @ [r]\<rparr>"

text \<open>\<open>result_file.exists()\<close> for the artifact of a page.\<close>

definition has_result :: "pstate \<Rightarrow> nat \<Rightarrow> bool" where
  "has_result s page_index =
     (case results_dir s of None \<Rightarrow> False | Some d \<Rightarrow> PageJson page_index |\<in>| fmdom d)"

text \<open>\<open>mkdir(parents=True, exist_ok=True)\<close> on the results directory.\<close>

definition make_results_dir :: "pstate \<Rightarrow> pstate" where
  "make_results_dir s =
     (case results_dir s of None \<Rightarrow> s\<lparr>results_dir := Some fmempty\<rparr> | Some d \<Rightarrow> s)"

definition write_file :: "json_file \<Rightarrow> file_content \<Rightarrow> pstate \<Rightarrow> pstate" where
  "write_file f c s =
     (case results_dir s of None \<Rightarrow> s | Some d \<Rightarrow> s\<lparr>results_dir := Some (fmupd f c d)\<rparr>)"

section \<open>Page worker\<close>

text \<open>
  The rate limiter that the pipeline constructs: \<open>AsyncLimiter(max_rate=1, time_period=1)\<close>.
\<close>

definition MAX_RATE :: nat where
  "MAX_RATE = 1"

definition TIME_PERIOD :: nat where
  "TIME_PERIOD = 1"

definition gemini_metadata :: "string \<Rightarrow> nat \<Rightarrow> metadata" where
  "gemini_metadata name page_num =
     \<lparr>md_pdf_name = name, md_page_number = page_num, md_image_path = (name, page_num),
      md_dpi = DPI, md_extraction_method = ''gemini_2.5_flash_ocr'',
      md_ocr_engine = ''gemini-2.5-flash''\<rparr>"

text \<open>
  What \<open>_process_page_image_async\<close> returns or raises. Entering the rate limiter
  (\<open>async with self.rate_limiter\<close>) may raise, and then \<open>generate\<close> is not called; inside
  the limiter come the call, the metadata, and the log line whose \<open>len(result['text'])\<close>
  raises on a text that has no length.
\<close>

definition process_page_image_async ::
  "doc_env \<Rightarrow> page_env \<Rightarrow> nat \<Rightarrow> exn + ocr_result" where
  "process_page_image_async env pe page_num =
     (case acquire pe of
        Some e \<Rightarrow> Inl e
      | None \<Rightarrow>
          (case generate (json_loads env) (response pe) of
             Inl e \<Rightarrow> Inl e
           | Inr result \<Rightarrow>
               (let result' = result\<lparr>res_metadata :=
                                        Some (gemini_metadata (env_pdf_name env) page_num)\<rparr>
                in if has_len (res_text result') then Inr result'
                   else Inl ''TypeError: object has no len()'')))"

text \<open>
  \<open>process_page_image\<close> runs the coroutine and catches what it raises. The permit is
  always requested; the recognition service is called only when the limiter was
  entered.
\<close>

definition process_page_image ::
  "doc_env \<Rightarrow> page_env \<Rightarrow> nat \<Rightarrow> pstate \<Rightarrow> ocr_result option \<times> pstate" where
  "process_page_image env pe page_num s =
     (let s0 = log_event (AcquirePermit page_num) s;
          s1 = (case acquire pe of None \<Rightarrow> log_event (Recognize page_num) s0 | Some e \<Rightarrow> s0)
      in case process_page_image_async env pe page_num of
           Inr result \<Rightarrow> (Some result, s1)
         | Inl e \<Rightarrow>
             (None, add_error
                \<lparr>err_pdf_file = env_pdf_name env @ ''.pdf'', err_page = Page page_num,
                 err_stage = ''gemini_ocr_processing'', err_error = Some e\<rparr> s1))"

text \<open>
  \<open>save_page_result\<close>: the first component is the exception that leaves the function,
  if any.
\<close>

definition save_page_result ::
  "doc_env \<Rightarrow> page_env \<Rightarrow> ocr_result \<Rightarrow> nat \<Rightarrow> pstate \<Rightarrow> exn option \<times> pstate" where
  "save_page_result env pe result page_num s =
     (case save pe of
        MkdirFails e \<Rightarrow> (Some e, s)
      | OpenFails e \<Rightarrow>
          (None, add_error
             \<lparr>err_pdf_file = env_pdf_name env @ ''.pdf'', err_page = Page page_num,
              err_stage = ''save_result'', err_error = Some e\<rparr>
             (log_event (WriteResult page_num) (make_results_dir s)))
      | DumpFails e \<Rightarrow>
          (None, add_error
             \<lparr>err_pdf_file = env_pdf_name env @ ''.pdf'', err_page = Page page_num,
              err_stage = ''save_result'', err_error = Some e\<rparr>
             (write_file (PageJson page_num) Incomplete
                (log_event (WriteResult page_num) (make_results_dir s))))
      | SaveOk \<Rightarrow>
          (None, write_file (PageJson page_num) (Complete result)
                   (log_event (WriteResult page_num) (make_results_dir s))))"

definition page_failure :: "nat \<Rightarrow> string \<Rightarrow> page_result" where
  "page_failure page_index e =
     \<lparr>pr_page = page_index, pr_success = False, pr_error = Some e, pr_skipped = False\<rparr>"

text \<open>
  \<open>process_single_page\<close>, for the 0-based \<open>page_num\<close>, from the point where
  \<open>result_file.exists()\<close> has returned. (That test stands before the \<open>try\<close>: when it
  raises, the worker has done nothing and the exception is what \<open>future.result()\<close>
  raises in \<open>process_pdf\<close>; this is the first case of \<open>process_pages\<close> below.) Every
  exception inside the \<open>try\<close> becomes a failure result. The function never reads the
  page's embedded text. Opening the document and indexing the page are one step
  (\<open>open_page\<close>); closing the document is taken not to raise.
\<close>

definition process_single_page :: "doc_env \<Rightarrow> nat \<Rightarrow> pstate \<Rightarrow> page_result \<times> pstate" where
  "process_single_page env page_num s =
     (let page_index = page_num + 1; pe = pages env page_num
      in if has_result s page_index
         then (\<lparr>pr_page = page_index, pr_success = True, pr_error = None,
                 pr_skipped = True\<rparr>, s)
         else
           (let s1 = log_event (OpenPage page_index) s
            in case open_page pe of
                 Some e \<Rightarrow> (page_failure page_index e, s1)
               | None \<Rightarrow>
                   (let s2 = log_event (RenderPage page_index) s1
                    in case render pe of
                         Some e \<Rightarrow> (page_failure page_index e, s2)
                       | None \<Rightarrow>
                           (case process_page_image env pe page_index s2 of
                              (None, s3) \<Rightarrow>
                                (page_failure page_index ''OCR returned no result'', s3)
                            | (Some result, s3) \<Rightarrow>
                                (case save_page_result env pe result page_index s3 of
                                   (Some e, s4) \<Rightarrow> (page_failure page_index e, s4)
                                 | (None, s4) \<Rightarrow>
                                     (\<lparr>pr_page = page_index, pr_success = True,
                                       pr_error = None, pr_skipped = False\<rparr>, s4))))))"

section \<open>Document scheduler\<close>

text \<open>
  \<open>is_pdf_already_processed\<close>: \<open>(is_complete, total_pages, existing_pages_count)\<close>.
\<close>

definition is_pdf_already_processed :: "doc_env \<Rightarrow> pstate \<Rightarrow> (bool \<times> nat \<times> nat) \<times> pstate" where
  "is_pdf_already_processed env s =
     (case results_dir s of
        None \<Rightarrow> ((False, 0, 0), s)
      | Some d \<Rightarrow>
          (let s1 = log_event OpenDocument s
           in case open_precheck env of
                Inl e \<Rightarrow> ((False, 0, 0), s1)
              | Inr page_count \<Rightarrow>
                  (let existing_page_count = fcard (fmdom d)
                   in ((page_count \<le> existing_page_count, page_count, existing_page_count), s1))))"

text \<open>\<open>stats.get('skipped_pages', 0)\<close>.\<close>

definition get_skipped_pages :: "doc_stats \<Rightarrow> nat" where
  "get_skipped_pages stats = (case skipped_pages stats of None \<Rightarrow> 0 | Some k \<Rightarrow> k)"

text \<open>
  The body of the loop over the completed page workers. The dictionary it updates is
  the one \<open>process_pdf\<close> builds, which has the key \<open>skipped_pages\<close>.
\<close>

definition collect_page :: "doc_env \<Rightarrow> page_result \<Rightarrow> doc_stats \<Rightarrow> pstate \<Rightarrow> doc_stats \<times> pstate" where
  "collect_page env page_result stats s =
     (if pr_success page_result
      then (let stats1 = stats\<lparr>successful_pages := successful_pages stats + 1\<rparr>
            in if pr_skipped page_result
               then (stats1\<lparr>skipped_pages := Some (get_skipped_pages stats1 + 1)\<rparr>, s)
               else (stats1\<lparr>gemini_ocr_pages := gemini_ocr_pages stats1 + 1\<rparr>, s))
      else (stats\<lparr>failed_pages := failed_pages stats + 1\<rparr>,
            add_error
              \<lparr>err_pdf_file = env_pdf_file env, err_page = Page (pr_page page_result),
               err_stage = ''page_processing'', err_error = pr_error page_result\<rparr> s))"

text \<open>
  The workers that are still to complete when the loop of \<open>process_pdf\<close> is left by an
  exception: the executor waits for them, and nobody collects their results.
\<close>

fun run_uncollected :: "doc_env \<Rightarrow> nat list \<Rightarrow> pstate \<Rightarrow> pstate" where
  "run_uncollected env [] s = s"
| "run_uncollected env (page_num # rest) s =
     (case exists_check (pages env page_num) of
        Some e \<Rightarrow> run_uncollected env rest s
      | None \<Rightarrow> run_uncollected env rest (snd (process_single_page env page_num s)))"

text \<open>
  The page workers of one document and the collection of their results, one page after
  the other in the order \<open>page_nums\<close> in which the workers complete (a permutation of
  \<open>range(total_pages)\<close>). A worker touches no file but its own page's. The first
  component of the result is the exception with which \<open>future.result()\<close> leaves the
  loop, if any: that of a worker whose \<open>result_file.exists()\<close> raised.
\<close>

fun process_pages ::
  "doc_env \<Rightarrow> nat list \<Rightarrow> doc_stats \<Rightarrow> pstate \<Rightarrow> (exn option \<times> doc_stats) \<times> pstate" where
  "process_pages env [] stats s = ((None, stats), s)"
| "process_pages env (page_num # rest) stats s =
     (case exists_check (pages env page_num) of
        Some e \<Rightarrow> ((Some e, stats), run_uncollected env rest s)
      | None \<Rightarrow>
          (case process_single_page env page_num s of
             (page_result, s1) \<Rightarrow>
               (case collect_page env page_result stats s1 of
                  (stats1, s2) \<Rightarrow> process_pages env rest stats1 s2)))"

definition finish_pdf :: "doc_stats \<Rightarrow> pstate \<Rightarrow> doc_stats \<times> pstate" where
  "finish_pdf stats s = (stats, s\<lparr>processing_status := processing_status s @ [stats]\<rparr>)"

definition pdf_open_failed :: "doc_env \<Rightarrow> doc_stats \<Rightarrow> exn \<Rightarrow> pstate \<Rightarrow> doc_stats \<times> pstate" where
  "pdf_open_failed env stats e s =
     finish_pdf (stats\<lparr>status := Failed\<rparr>)
       (add_error \<lparr>err_pdf_file = env_pdf_file env, err_page = NA,
                   err_stage = ''pdf_open'', err_error = Some e\<rparr> s)"

text \<open>
  \<open>process_pdf\<close>, with \<open>order\<close> the order in which the page workers complete. One
  handler serves every exception of its \<open>try\<close>: opening the document, creating the
  temporary directory, and \<open>future.result()\<close>.
\<close>

definition process_pdf :: "doc_env \<Rightarrow> nat list \<Rightarrow> pstate \<Rightarrow> doc_stats \<times> pstate" where
  "process_pdf env order s =
     (case is_pdf_already_processed env s of
        ((is_complete, page_count, existing_pages), s1) \<Rightarrow>
          if is_complete
          then (\<lparr>pdf_name = env_pdf_name env, pdf_file = env_pdf_file env,
                  total_pages = page_count, successful_pages = existing_pages,
                  failed_pages = 0, conventional_pages = 0,
                  gemini_ocr_pages = existing_pages, skipped_pages = None,
                  status = SkippedAlreadyProcessed\<rparr>, s1)
          else
            (let stats = \<lparr>pdf_name = env_pdf_name env, pdf_file = env_pdf_file env,
                          total_pages = 0, successful_pages = 0, failed_pages = 0,
                          conventional_pages = 0, gemini_ocr_pages = 0,
                          skipped_pages = Some 0, status = Processing\<rparr>;
                 s2 = log_event OpenDocument s1
             in case open_document env of
                  Inl e \<Rightarrow> pdf_open_failed env stats e s2
                | Inr n \<Rightarrow>
                    (let stats1 = stats\<lparr>total_pages := n\<rparr>
                     in case temp_mkdir env of
                          Some e \<Rightarrow> pdf_open_failed env stats1 e s2
                        | None \<Rightarrow>
                            (case process_pages env order stats1 s2 of
                               ((Some e, stats2), s3) \<Rightarrow> pdf_open_failed env stats2 e s3
                             | ((None, stats2), s3) \<Rightarrow>
                                 finish_pdf
                                   (stats2\<lparr>status := (if failed_pages stats2 = 0 then Completed
                                                       else CompletedWithErrors)\<rparr>) s3))))"

section \<open>Corpus scheduler\<close>

record run_stats =
  total_pdfs :: nat
  processed_pdfs :: nat
  skipped_pdfs :: nat
  run_total_pages :: nat
  run_successful_pages :: nat
  run_failed_pages :: nat
  run_conventional_pages :: nat
  run_gemini_ocr_pages :: nat
  run_skipped_pages :: nat
  pdf_details :: "doc_stats list"

text \<open>
  The body of the loop of \<open>process_all_pdfs\<close> over the completed documents: the file
  name with what \<open>future.result()\<close> returns or raises.
\<close>

definition merge_pdf ::
  "string \<times> (exn + doc_stats) \<Rightarrow> run_stats \<times> error_record list \<Rightarrow> run_stats \<times> error_record list" where
  "merge_pdf arrival acc =
     (case acc of (overall_stats, errs) \<Rightarrow>
        (case arrival of
           (name, Inr stats) \<Rightarrow>
             (overall_stats
                \<lparr>processed_pdfs := processed_pdfs overall_stats + 1,
                 skipped_pdfs := (if status stats = SkippedAlreadyProcessed
                                  then skipped_pdfs overall_stats + 1
                                  else skipped_pdfs overall_stats),
                 run_total_pages := run_total_pages overall_stats + total_pages stats,
                 run_successful_pages :=
                   run_successful_pages overall_stats + successful_pages stats,
                 run_failed_pages := run_failed_pages overall_stats + failed_pages stats,
                 run_conventional_pages :=
                   run_conventional_pages overall_stats + conventional_pages stats,
                 run_gemini_ocr_pages :=
                   run_gemini_ocr_pages overall_stats + gemini_ocr_pages stats,
                 run_skipped_pages :=
                   run_skipped_pages overall_stats + get_skipped_pages stats,
                 pdf_details := pdf_details overall_stats @ [stats]\<rparr>, errs)
         | (name, Inl e) \<Rightarrow>
             (overall_stats,
              errs @ [\<lparr>err_pdf_file = name, err_page = NA,
                        err_stage = ''pdf_processing'', err_error = Some e\<rparr>])))"

datatype run_summary = NoPdfs | Summary run_stats

text \<open>
  \<open>process_all_pdfs\<close> up to the end of its loop, on the documents in the order in which
  they complete. With no document it returns the dictionary \<open>{'total_pdfs': 0}\<close>.
\<close>

definition process_all_pdfs ::
  "(string \<times> (exn + doc_stats)) list \<Rightarrow> error_record list \<Rightarrow> run_summary \<times> error_record list" where
  "process_all_pdfs arrivals errs =
     (if arrivals = [] then (NoPdfs, errs)
      else (case foldl (\<lambda>acc a. merge_pdf a acc)
                   (\<lparr>total_pdfs = length arrivals, processed_pdfs = 0, skipped_pdfs = 0,
                     run_total_pages = 0, run_successful_pages = 0, run_failed_pages = 0,
                     run_conventional_pages = 0, run_gemini_ocr_pages = 0,
                     run_skipped_pages = 0, pdf_details = []\<rparr>, errs) arrivals of
              (overall_stats, errs1) \<Rightarrow> (Summary overall_stats, errs1)))"

text \<open>The counters of a run summary, in the order of the dictionary's keys.\<close>

definition summary_counters :: "run_summary \<Rightarrow> nat list" where
  "summary_counters r =
     (case r of
        NoPdfs \<Rightarrow> [0]
      | Summary st \<Rightarrow>
          [total_pdfs st, processed_pdfs st, skipped_pdfs st, run_total_pages st,
           run_successful_pages st, run_failed_pages st, run_conventional_pages st,
           run_gemini_ocr_pages st, run_skipped_pages st])"

section \<open>Notions used to state the properties\<close>

text \<open>The state before anything was processed: no results directory, no error.\<close>

definition empty_state :: pstate where
  "empty_state = \<lparr>results_dir = None, errors = [], processing_status = [], trace = []\<rparr>"

text \<open>
  What the worker of a page does when the page has no artifact, read off a run on the
  empty state: its result, whether it fails, its events, whether it leaves a file for
  the page, and the error records that it and the collection of its result append.
\<close>

definition fresh_page :: "doc_env \<Rightarrow> nat \<Rightarrow> page_result \<times> pstate" where
  "fresh_page env p = process_single_page env p empty_state"

definition page_fails :: "doc_env \<Rightarrow> nat \<Rightarrow> bool" where
  "page_fails env p \<longleftrightarrow> \<not> pr_success (fst (fresh_page env p))"

definition page_events :: "doc_env \<Rightarrow> nat \<Rightarrow> event list" where
  "page_events env p = trace (snd (fresh_page env p))"

definition page_writes :: "doc_env \<Rightarrow> nat \<Rightarrow> bool" where
  "page_writes env p \<longleftrightarrow> has_result (snd (fresh_page env p)) (Suc p)"

definition page_errors :: "doc_env \<Rightarrow> nat \<Rightarrow> error_record list" where
  "page_errors env p =
     errors (snd (fresh_page env p)) @
     (if page_fails env p
      then [\<lparr>err_pdf_file = env_pdf_file env, err_page = Page (Suc p),
              err_stage = ''page_processing'',
              err_error = pr_error (fst (fresh_page env p))\<rparr>]
      else [])"

text \<open>
  The recognition of a page succeeds when the limiter is entered and the call, the parse
  and the log line raise nothing; its worker succeeds when moreover the test of its
  result file raises nothing, the page opens and renders and the results directory can
  be created.
\<close>

definition recognition_ok :: "doc_env \<Rightarrow> nat \<Rightarrow> bool" where
  "recognition_ok env p =
     (case process_page_image_async env (pages env p) (Suc p) of
        Inr _ \<Rightarrow> True | Inl _ \<Rightarrow> False)"

definition worker_succeeds :: "doc_env \<Rightarrow> nat \<Rightarrow> bool" where
  "worker_succeeds env p \<longleftrightarrow>
     exists_check (pages env p) = None
     \<and> open_page (pages env p) = None \<and> render (pages env p) = None \<and> recognition_ok env p
     \<and> (case save (pages env p) of MkdirFails _ \<Rightarrow> False | _ \<Rightarrow> True)"



text \<open>The events and the error records that a run added to those of the state before.\<close>

definition new_events :: "pstate \<Rightarrow> pstate \<Rightarrow> event list" where
  "new_events s s' = drop (length (trace s)) (trace s')"

definition new_errors :: "pstate \<Rightarrow> pstate \<Rightarrow> error_record list" where
  "new_errors s s' = drop (length (errors s)) (errors s')"

text \<open>Whether the resumability check of \<open>process_pdf\<close> finds the document complete.\<close>

definition is_complete :: "doc_env \<Rightarrow> pstate \<Rightarrow> bool" where
  "is_complete env s = fst (fst (is_pdf_already_processed env s))"

text \<open>What a completed document adds to a counter of the run: nothing when it raised.\<close>

definition contrib :: "(doc_stats \<Rightarrow> nat) \<Rightarrow> string \<times> (exn + doc_stats) \<Rightarrow> nat" where
  "contrib f a = (case snd a of Inl _ \<Rightarrow> 0 | Inr d \<Rightarrow> f d)"

text \<open>Two document results, for the examples.\<close>

definition doc_a :: doc_stats where
  "doc_a = \<lparr>pdf_name = ''a'', pdf_file = ''a.pdf'', total_pages = 3, successful_pages = 2,
            failed_pages = 1, conventional_pages = 0, gemini_ocr_pages = 2,
            skipped_pages = Some 0, status = CompletedWithErrors\<rparr>"

definition doc_b :: doc_stats where
  "doc_b = \<lparr>pdf_name = ''b'', pdf_file = ''b.pdf'', total_pages = 5, successful_pages = 5,
            failed_pages = 0, conventional_pages = 0, gemini_ocr_pages = 5,
            skipped_pages = None, status = SkippedAlreadyProcessed\<rparr>"

text \<open>
  The dictionary and the state with which \<open>process_pdf\<close> enters its loop over the pages
  of a document of \<open>n\<close> pages that the resumability check did not find complete.
\<close>

definition start_stats :: "doc_env \<Rightarrow> nat \<Rightarrow> doc_stats" where
  "start_stats env n =
     \<lparr>pdf_name = env_pdf_name env, pdf_file = env_pdf_file env, total_pages = n,
      successful_pages = 0, failed_pages = 0, conventional_pages = 0, gemini_ocr_pages = 0,
      skipped_pages = Some 0, status = Processing\<rparr>"

definition start_state :: "doc_env \<Rightarrow> pstate \<Rightarrow> pstate" where
  "start_state env s = log_event OpenDocument (snd (is_pdf_already_processed env s))"

section \<open>A three-page document\<close>

text \<open>
  The scenario of the specification: page 1 has rich embedded text, pages 2 and 3 have
  none, and the recognition call of page 3 fails. The service answers \<open>{}\<close> for the
  other pages, and nothing exists on disk before the run.
\<close>

definition rich_text :: pystr where
  "rich_text = ten_words @ lit '' kkkk''"

definition scenario_pages :: "nat \<Rightarrow> page_env" where
  "scenario_pages p =
     \<lparr>exists_check = None, embedded_text = (if p = 0 then rich_text else []),
      open_page = None, render = None, acquire = None,
      response = (if p = 2 then Inl ''quota exceeded'' else Inr (lit ''{}'')),
      save = SaveOk\<rparr>"

text \<open>
  \<open>json.loads\<close> on the texts of the examples: the empty object, a run of 100000 opening
  brackets (on which it raises \<open>RecursionError\<close>), and texts that are no JSON.
\<close>

definition deep_brackets :: pystr where
  "deep_brackets = replicate 100000 91"

definition scenario_loads :: "pystr \<Rightarrow> loads_outcome" where
  "scenario_loads t =
     (if t = lit ''{}'' then Parsed (JObj [])
      else if t = deep_brackets
      then LoadsRaises ''RecursionError: maximum recursion depth exceeded''
      else JSONDecodeError)"

definition scenario_env :: doc_env where
  "scenario_env =
     \<lparr>env_pdf_name = ''doc'', env_pdf_file = ''doc.pdf'', open_precheck = Inr 3,
      open_document = Inr 3, temp_mkdir = None, pages = scenario_pages,
      json_loads = scenario_loads\<rparr>"

text \<open>
  The state after a page was opened, rendered and sent to the recognition service, the
  state after the request of its permit, whether or not it was followed by the call,
  the record of a failed write, and the result of a page that was processed with
  success.
\<close>

definition recognised :: "nat \<Rightarrow> pstate \<Rightarrow> pstate" where
  "recognised k s =
     log_event (Recognize k) (log_event (AcquirePermit k)
       (log_event (RenderPage k) (log_event (OpenPage k) s)))"

definition requested :: "page_env \<Rightarrow> nat \<Rightarrow> pstate \<Rightarrow> pstate" where
  "requested pe k s =
     (case acquire pe of
        None \<Rightarrow> recognised k s
      | Some e \<Rightarrow>
          log_event (AcquirePermit k) (log_event (RenderPage k) (log_event (OpenPage k) s)))"

definition save_error :: "doc_env \<Rightarrow> nat \<Rightarrow> exn \<Rightarrow> error_record" where
  "save_error env k e =
     \<lparr>err_pdf_file = env_pdf_name env @ ''.pdf'', err_page = Page k,
      err_stage = ''save_result'', err_error = Some e\<rparr>"

definition page_success :: "nat \<Rightarrow> page_result" where
  "page_success k = \<lparr>pr_page = k, pr_success = True, pr_error = None, pr_skipped = False\<rparr>"

section \<open>A one-page document\<close>

text \<open>
  A document of one page that opens and renders, with a given answer of the recognition
  service and a given outcome of saving; nothing exists on disk before the run.
\<close>

definition one_page :: "save_outcome \<Rightarrow> exn + pystr \<Rightarrow> doc_env" where
  "one_page sv resp =
     \<lparr>env_pdf_name = ''doc'', env_pdf_file = ''doc.pdf'', open_precheck = Inr 1,
      open_document = Inr 1, temp_mkdir = None,
      pages = (\<lambda>p. \<lparr>exists_check = None, embedded_text = [], open_page = None,
                      render = None, acquire = None, response = resp, save = sv\<rparr>),
      json_loads = scenario_loads\<rparr>"

text \<open>The result for the answer \<open>{}\<close>.\<close>

definition empty_object_result :: "nat \<Rightarrow> ocr_result" where
  "empty_object_result k =
     \<lparr>res_text = JStr [], res_headings = JArr [], res_tables = JArr [], res_images = JArr [],
      res_structure = default_structure, res_raw_response = Some (lit ''{}''),
      res_metadata = Some (gemini_metadata ''doc'' k)\<rparr>"



text \<open>A document of one page with rich embedded text, which the service answers with \<open>{}\<close>.\<close>

definition rich_page :: doc_env where
  "rich_page =
     (one_page SaveOk (Inr (lit ''{}'')))
       \<lparr>pages := (\<lambda>p. \<lparr>exists_check = None, embedded_text = rich_text, open_page = None,
                         render = None, acquire = None, response = Inr (lit ''{}''),
                         save = SaveOk\<rparr>)\<rparr>"

text \<open>The three-page document when its temporary directory cannot be created.\<close>

definition no_temp_dir :: doc_env where
  "no_temp_dir = scenario_env\<lparr>temp_mkdir := Some ''permission denied''\<rparr>"

section \<open>Rate limiter\<close>

text \<open>
  Whether, in a trace, every call of the recognition service directly follows the
  request of the permit of the same page. \<open>guarded_from prev\<close> scans the trace with
  \<open>prev\<close> the event before.
\<close>

fun guarded_from :: "event option \<Rightarrow> event list \<Rightarrow> bool" where
  "guarded_from prev [] = True"
| "guarded_from prev (e # es) =
     ((case e of Recognize q \<Rightarrow> prev = Some (AcquirePermit q) | _ \<Rightarrow> True)
      \<and> guarded_from (Some e) es)"

definition calls_guarded :: "event list \<Rightarrow> bool" where
  "calls_guarded es = guarded_from None es"

text \<open>
  Modelled from the spec: the rate limiter of section 4.5, "a shared, process-wide
  token source releasing at most R permits per fixed time window" (the pipeline takes
  it from the library \<open>aiolimiter\<close>, which is not among the sources). A run of the
  limiter is the list of the times at which it released its permits, in ticks of a
  clock, in order; it is admissible for \<open>R\<close> permits per window of \<open>W\<close> ticks when no
  window that starts at a release holds more than \<open>R\<close> releases.
\<close>

definition admissible :: "nat \<Rightarrow> nat \<Rightarrow> nat list \<Rightarrow> bool" where
  "admissible R W ts \<longleftrightarrow>
     sorted ts \<and> list_all (\<lambda>t. length [u \<leftarrow> ts. t \<le> u \<and> u < t + W] \<le> R) ts"

text \<open>The time between the first and the last release of a run.\<close>

definition span :: "nat list \<Rightarrow> nat" where
  "span ts = last ts - hd ts"

text \<open>
  Modelled from the spec: the bound of section 8 for \<open>B\<close> calls at \<open>R\<close> permits per
  second, the ceiling of \<open>(B - 1) / R\<close>, in seconds.
\<close>

definition claimed_bound :: "nat \<Rightarrow> nat \<Rightarrow> nat" where
  "claimed_bound R B = (B - 1 + (R - 1)) div R"

section \<open>Properties of the text functions\<close>

lemma split_from_leading:
  "split_from [] (dropWhile py_isspace s) = split_from [] s"
  by (induction s) simp_all

lemma split_from_spaces:
  "\<forall>c \<in> set ws. py_isspace c \<Longrightarrow> split_from w ws = (if w = [] then [] else [w])"
  by (induction ws arbitrary: w) simp_all

lemma split_from_trailing:
  "\<forall>c \<in> set ws. py_isspace c \<Longrightarrow> split_from w (s @ ws) = split_from w s"
proof (induction s arbitrary: w)
  case Nil
  then show ?case by (simp add: split_from_spaces)
next
  case (Cons c s)
  then show ?case by simp
qed

lemma strip_end_decomp:
  "rev (dropWhile P (rev s)) @ rev (takeWhile P (rev s)) = s"
proof -
  have "rev (takeWhile P (rev s) @ dropWhile P (rev s)) = s"
    by simp
  then show ?thesis
    by (simp only: rev_append)
qed

lemma split_from_strip_end:
  "split_from w (rev (dropWhile py_isspace (rev s))) = split_from w s"
proof -
  let ?ws = "rev (takeWhile py_isspace (rev s))"
  have sp: "\<forall>c \<in> set ?ws. py_isspace c"
    by (auto dest: set_takeWhileD)
  have "split_from w s = split_from w (rev (dropWhile py_isspace (rev s)) @ ?ws)"
    by (simp only: strip_end_decomp)
  also have "\<dots> = split_from w (rev (dropWhile py_isspace (rev s)))"
    using sp by (rule split_from_trailing)
  finally show ?thesis by simp
qed

lemma py_split_strip: "py_split (py_strip s) = py_split s"
  by (simp add: py_split_def py_strip_def split_from_strip_end split_from_leading)

lemma length_py_strip: "length (py_strip s) \<le> length s"
proof -
  have "length (dropWhile py_isspace (rev (dropWhile py_isspace s)))
          \<le> length (rev (dropWhile py_isspace s))"
    by (rule length_dropWhile_le)
  then have "length (py_strip s) \<le> length (dropWhile py_isspace s)"
    unfolding py_strip_def by simp
  also have "\<dots> \<le> length s"
    by (rule length_dropWhile_le)
  finally show ?thesis .
qed

lemma ten_words_eval:
  "length ten_words = 49" "py_strip ten_words = ten_words" "length (py_split ten_words) = 10"
  by (simp_all add: ten_words_def lit_def py_strip_def py_split_def py_isspace_def)

section \<open>Claims about the selector\<close>

text \<open>
  C2 (as amended). The selector is a total function of the embedded text alone. It
  answers conventional exactly when the text, once leading and trailing whitespace is
  stripped, has at least 50 characters and the text has at least 10 words; whenever it
  answers conventional the unstripped text also has at least 50 characters and 10 words;
  on a text with no leading or trailing whitespace it agrees with the thresholds applied
  to the text itself; and the empty text is answered recognition-required.
\<close>

theorem check_page_has_text_stripped:
  "(check_page_has_text t \<longleftrightarrow> 50 \<le> length (py_strip t) \<and> 10 \<le> length (py_split t))
   \<and> (check_page_has_text t \<longrightarrow> spec_selects_conventional t)
   \<and> (py_strip t = t \<longrightarrow> check_page_has_text t = spec_selects_conventional t)
   \<and> \<not> check_page_has_text []"
proof -
  have iff: "check_page_has_text t \<longleftrightarrow> 50 \<le> length (py_strip t) \<and> 10 \<le> length (py_split t)"
    by (simp add: check_page_has_text_def Let_def py_split_strip MIN_TEXT_LENGTH_def MIN_WORDS_def)
  have le: "length (py_strip t) \<le> length t"
    by (rule length_py_strip)
  have imp: "check_page_has_text t \<longrightarrow> spec_selects_conventional t"
    using iff le by (simp add: spec_selects_conventional_def MIN_TEXT_LENGTH_def MIN_WORDS_def)
  have same: "py_strip t = t \<longrightarrow> check_page_has_text t = spec_selects_conventional t"
    using iff by (simp add: spec_selects_conventional_def MIN_TEXT_LENGTH_def MIN_WORDS_def)
  have empty: "\<not> check_page_has_text []"
    by (simp add: check_page_has_text_def py_strip_def MIN_TEXT_LENGTH_def)
  from iff imp same empty show ?thesis by blast
qed

theorem check_page_has_text_stripped_witness:
  "py_strip (ten_words @ [97]) = ten_words @ [97]
   \<and> check_page_has_text (ten_words @ [97])
   \<and> spec_selects_conventional (ten_words @ [97])"
proof -
  have s: "py_strip (ten_words @ [97]) = ten_words @ [97]"
    by (simp add: ten_words_def lit_def py_strip_def py_isspace_def)
  have l: "length (py_split (ten_words @ [97])) = 10"
    by (simp add: ten_words_def lit_def py_split_def py_isspace_def)
  have c: "check_page_has_text (ten_words @ [97])"
    using check_page_has_text_stripped [of "ten_words @ [97]"] s l
    by (simp add: ten_words_eval)
  show ?thesis
    using check_page_has_text_stripped [of "ten_words @ [97]"] s c by simp
qed

text \<open>
  C2 as stated fails: a page text of 50 characters and 10 words whose last character is
  a newline is answered recognition-required, because the length that is compared with
  the threshold is that of the stripped text (49).
\<close>

theorem check_page_has_text_counterexample:
  "length ten_words_nl = 50 \<and> length (py_split ten_words_nl) = 10
   \<and> spec_selects_conventional ten_words_nl \<and> \<not> check_page_has_text ten_words_nl"
proof -
  have a: "length ten_words_nl = 50"
    by (simp add: ten_words_nl_def ten_words_eval)
  have b: "length (py_split ten_words_nl) = 10"
    by (simp add: ten_words_nl_def ten_words_def lit_def py_split_def py_isspace_def)
  have c: "py_strip ten_words_nl = ten_words"
    by (simp add: ten_words_nl_def ten_words_def lit_def py_strip_def py_isspace_def)
  have d: "\<not> check_page_has_text ten_words_nl"
    by (simp add: check_page_has_text_def Let_def c ten_words_eval MIN_TEXT_LENGTH_def)
  from a b d show ?thesis
    by (simp add: spec_selects_conventional_def MIN_TEXT_LENGTH_def MIN_WORDS_def)
qed


section \<open>The state operations\<close>

lemma log_event_simps:
  "errors (log_event e s) = errors s"
  "trace (log_event e s) = trace s @ [e]"
  "results_dir (log_event e s) = results_dir s"
  "processing_status (log_event e s) = processing_status s"
  by (simp_all add: log_event_def)

lemma add_error_simps:
  "errors (add_error r s) = errors s @ [r]"
  "trace (add_error r s) = trace s"
  "results_dir (add_error r s) = results_dir s"
  "processing_status (add_error r s) = processing_status s"
  by (simp_all add: add_error_def)

lemma make_results_dir_simps:
  "errors (make_results_dir s) = errors s"
  "trace (make_results_dir s) = trace s"
  "processing_status (make_results_dir s) = processing_status s"
  "results_dir (make_results_dir s) = Some (case results_dir s of None \<Rightarrow> fmempty | Some d \<Rightarrow> d)"
  by (simp_all add: make_results_dir_def split: option.splits)

lemma write_file_simps:
  "errors (write_file f c s) = errors s"
  "trace (write_file f c s) = trace s"
  "processing_status (write_file f c s) = processing_status s"
  "results_dir (write_file f c s) = map_option (fmupd f c) (results_dir s)"
  by (simp_all add: write_file_def split: option.splits)

lemmas state_simps = log_event_simps add_error_simps make_results_dir_simps write_file_simps

lemma has_result_simps:
  "has_result (log_event e s) q = has_result s q"
  "has_result (add_error r s) q = has_result s q"
  "has_result (make_results_dir s) q = has_result s q"
  "has_result (write_file (PageJson p) c (log_event e (make_results_dir s))) q
     = (q = p \<or> has_result s q)"
  by (auto simp add: has_result_def state_simps split: option.splits)

lemma has_result_empty: "\<not> has_result empty_state q"
  by (simp add: has_result_def empty_state_def)

lemma empty_state_simps:
  "errors empty_state = []" "trace empty_state = []" "processing_status empty_state = []"
  "results_dir empty_state = None"
  by (simp_all add: empty_state_def)


section \<open>The page worker is local to its page\<close>

lemma psp_skip:
  "has_result s (Suc p) \<Longrightarrow>
   process_single_page env p s =
     (\<lparr>pr_page = Suc p, pr_success = True, pr_error = None, pr_skipped = True\<rparr>, s)"
  by (simp add: process_single_page_def)

lemma psp_fresh:
  assumes "\<not> has_result s (Suc p)"
  shows "fst (process_single_page env p s) = fst (fresh_page env p)"
    and "errors (snd (process_single_page env p s)) = errors s @ errors (snd (fresh_page env p))"
    and "trace (snd (process_single_page env p s)) = trace s @ trace (snd (fresh_page env p))"
    and "processing_status (snd (process_single_page env p s)) = processing_status s"
    and "has_result (snd (process_single_page env p s)) q
          = (has_result s q \<or> has_result (snd (fresh_page env p)) q)"
  using assms
  by (auto simp add: process_single_page_def fresh_page_def process_page_image_def
        save_page_result_def Let_def state_simps has_result_simps has_result_empty
        empty_state_simps
      split: option.splits sum.splits save_outcome.splits)

lemma fresh_has_result: "has_result (snd (fresh_page env p)) q \<Longrightarrow> q = Suc p"
  by (auto simp add: process_single_page_def fresh_page_def process_page_image_def
        save_page_result_def Let_def state_simps has_result_simps has_result_empty
      split: option.splits sum.splits save_outcome.splits)

lemma fresh_pr_page: "pr_page (fst (fresh_page env p)) = Suc p"
  by (auto simp add: process_single_page_def fresh_page_def process_page_image_def
        save_page_result_def Let_def page_failure_def
      split: option.splits sum.splits save_outcome.splits)


section \<open>The loop over the pages\<close>

lemma collect_page_state:
  "snd (collect_page env r st s) =
     (if pr_success r then s
      else add_error \<lparr>err_pdf_file = env_pdf_file env, err_page = Page (pr_page r),
                      err_stage = ''page_processing'', err_error = pr_error r\<rparr> s)"
  by (simp add: collect_page_def Let_def)

lemma collect_page_counters:
  "successful_pages (fst (collect_page env r st s))
     = successful_pages st + (if pr_success r then 1 else 0)"
  "failed_pages (fst (collect_page env r st s))
     = failed_pages st + (if pr_success r then 0 else 1)"
  "gemini_ocr_pages (fst (collect_page env r st s))
     = gemini_ocr_pages st + (if pr_success r \<and> \<not> pr_skipped r then 1 else 0)"
  "get_skipped_pages (fst (collect_page env r st s))
     = get_skipped_pages st + (if pr_success r \<and> pr_skipped r then 1 else 0)"
  "conventional_pages (fst (collect_page env r st s)) = conventional_pages st"
  "total_pages (fst (collect_page env r st s)) = total_pages st"
  by (simp_all add: collect_page_def Let_def get_skipped_pages_def)

lemma process_pages_Cons:
  "exists_check (pages env p) = None \<Longrightarrow>
   process_pages env (p # ps) st s =
     process_pages env ps
       (fst (collect_page env (fst (process_single_page env p s)) st
               (snd (process_single_page env p s))))
       (snd (collect_page env (fst (process_single_page env p s)) st
               (snd (process_single_page env p s))))"
  by (simp split: prod.splits)

lemma process_pages_raises:
  "exists_check (pages env p) = Some e \<Longrightarrow>
   process_pages env (p # ps) st s = ((Some e, st), run_uncollected env ps s)"
  by simp

text \<open>What the loop never changes, whether or not it is left by an exception.\<close>

lemma process_pages_fixed:
  "conventional_pages (snd (fst (process_pages env ps st s))) = conventional_pages st
   \<and> total_pages (snd (fst (process_pages env ps st s))) = total_pages st"
proof (induction ps arbitrary: st s)
  case Nil
  show ?case by simp
next
  case (Cons p ps)
  show ?case
  proof (cases "exists_check (pages env p)")
    case None
    show ?thesis
      unfolding process_pages_Cons [OF None]
      by (simp add: Cons.IH collect_page_counters)
  next
    case (Some e)
    show ?thesis
      unfolding process_pages_raises [OF Some] by simp
  qed
qed

text \<open>The counters when no worker raises.\<close>

lemma process_pages_counters:
  assumes "\<forall>p \<in> set ps. exists_check (pages env p) = None"
  shows "fst (fst (process_pages env ps st s)) = None
   \<and> successful_pages (snd (fst (process_pages env ps st s)))
       + failed_pages (snd (fst (process_pages env ps st s)))
     = successful_pages st + failed_pages st + length ps
   \<and> successful_pages (snd (fst (process_pages env ps st s))) + gemini_ocr_pages st
       + get_skipped_pages st
     = successful_pages st + gemini_ocr_pages (snd (fst (process_pages env ps st s)))
       + get_skipped_pages (snd (fst (process_pages env ps st s)))"
  using assms
proof (induction ps arbitrary: st s)
  case Nil
  show ?case by simp
next
  case (Cons p ps)
  from Cons.prems have ok: "exists_check (pages env p) = None"
    and rest: "\<forall>q \<in> set ps. exists_check (pages env q) = None"
    by simp_all
  define r where "r = fst (process_single_page env p s)"
  define s1 where "s1 = snd (process_single_page env p s)"
  define st1 where "st1 = fst (collect_page env r st s1)"
  define s2 where "s2 = snd (collect_page env r st s1)"
  have step: "process_pages env (p # ps) st s = process_pages env ps st1 s2"
    unfolding process_pages_Cons [OF ok] by (simp add: r_def s1_def st1_def s2_def)
  note cnt = collect_page_counters [of env r st s1, folded st1_def]
  show ?case
    unfolding step using Cons.IH [OF rest, of st1 s2] cnt by (simp split: if_splits)
qed

lemma step_skip:
  assumes "has_result s (Suc p)"
  shows "snd (collect_page env (fst (process_single_page env p s)) st
               (snd (process_single_page env p s))) = s"
    and "failed_pages (fst (collect_page env (fst (process_single_page env p s)) st
               (snd (process_single_page env p s)))) = failed_pages st"
  using assms by (simp_all add: psp_skip collect_page_def Let_def)

lemma step_fresh:
  fixes env :: doc_env and st :: doc_stats and s :: pstate and p :: nat
  assumes "\<not> has_result s (Suc p)"
  defines "s2 \<equiv> snd (collect_page env (fst (process_single_page env p s)) st
               (snd (process_single_page env p s)))"
  defines "st1 \<equiv> fst (collect_page env (fst (process_single_page env p s)) st
               (snd (process_single_page env p s)))"
  shows "errors s2 = errors s @ page_errors env p"
    and "trace s2 = trace s @ page_events env p"
    and "processing_status s2 = processing_status s"
    and "has_result s2 q = (has_result s q \<or> (q = Suc p \<and> page_writes env p))"
    and "failed_pages st1 = failed_pages st + (if page_fails env p then 1 else 0)"
proof -
  note f = psp_fresh [OF assms(1), of env]
  show "errors s2 = errors s @ page_errors env p"
    by (simp add: s2_def collect_page_state f state_simps page_errors_def page_fails_def
          fresh_pr_page)
  show "trace s2 = trace s @ page_events env p"
    by (simp add: s2_def collect_page_state f state_simps page_events_def)
  show "processing_status s2 = processing_status s"
    by (simp add: s2_def collect_page_state f state_simps)
  show "has_result s2 q = (has_result s q \<or> (q = Suc p \<and> page_writes env p))"
    using fresh_has_result [of env p q]
    by (auto simp add: s2_def collect_page_state f has_result_simps page_writes_def)
  show "failed_pages st1 = failed_pages st + (if page_fails env p then 1 else 0)"
    by (simp add: st1_def collect_page_counters f page_fails_def)
qed

text \<open>
  The loop in terms of the state it starts from: \<open>H\<close> tells which pages have an artifact
  there, and a page processed once is not met again. First the events and the files,
  which are those of the workers whether or not their results are collected.
\<close>

lemma worker_effects:
  assumes "\<not> has_result s (Suc p)"
  shows "trace (snd (process_single_page env p s)) = trace s @ page_events env p"
    and "has_result (snd (process_single_page env p s)) q
           = (has_result s q \<or> (q = Suc p \<and> page_writes env p))"
  using psp_fresh [OF assms, of env] fresh_has_result [of env p q]
  by (auto simp add: page_events_def page_writes_def)



text \<open>Then the failures and the error records, when no worker raises.\<close>

lemma process_pages_local:
  assumes "distinct ps" and "\<forall>p \<in> set ps. has_result s (Suc p) = H p"
    and "\<forall>p \<in> set ps. exists_check (pages env p) = None"
  shows "failed_pages (snd (fst (process_pages env ps st s)))
           = failed_pages st + length [p \<leftarrow> ps. \<not> H p \<and> page_fails env p]
         \<and> errors (snd (process_pages env ps st s))
           = errors s @ concat (map (\<lambda>p. if H p then [] else page_errors env p) ps)
         \<and> processing_status (snd (process_pages env ps st s)) = processing_status s"
  using assms
proof (induction ps arbitrary: st s)
  case Nil
  show ?case by simp
next
  case (Cons p ps)
  define st1 where "st1 = fst (collect_page env (fst (process_single_page env p s)) st
               (snd (process_single_page env p s)))"
  define s2 where "s2 = snd (collect_page env (fst (process_single_page env p s)) st
               (snd (process_single_page env p s)))"
  from Cons.prems have d: "distinct ps" and pn: "p \<notin> set ps"
    and Hp: "has_result s (Suc p) = H p"
    and Hps: "\<forall>q \<in> set ps. has_result s (Suc q) = H q"
    and ok: "exists_check (pages env p) = None"
    and rest: "\<forall>q \<in> set ps. exists_check (pages env q) = None"
    by simp_all
  have step: "process_pages env (p # ps) st s = process_pages env ps st1 s2"
    unfolding process_pages_Cons [OF ok] by (simp add: st1_def s2_def)
  show ?case
  proof (cases "H p")
    case True
    with Hp have hr: "has_result s (Suc p)" by simp
    have s2: "s2 = s" and f: "failed_pages st1 = failed_pages st"
      using step_skip [OF hr, of env st] by (simp_all add: s2_def st1_def)
    from Cons.IH [OF d _ rest, of s st1] Hps
    show ?thesis
      unfolding step s2 by (simp add: True f)
  next
    case False
    with Hp have hr: "\<not> has_result s (Suc p)" by simp
    note sf = step_fresh [OF hr, of env st, folded s2_def st1_def]
    have Hps2: "\<forall>q \<in> set ps. has_result s2 (Suc q) = H q"
      using Hps pn by (auto simp add: sf(4))
    from Cons.IH [OF d Hps2 rest, of st1]
    show ?thesis
      unfolding step by (auto simp add: False sf)
  qed
qed

section \<open>Corpus scheduler: aggregation\<close>

lemma merge_fold_counters:
  "total_pdfs (fst (foldl (\<lambda>acc a. merge_pdf a acc) (st, e) xs)) = total_pdfs st
   \<and> processed_pdfs (fst (foldl (\<lambda>acc a. merge_pdf a acc) (st, e) xs))
       = processed_pdfs st + sum_list (map (contrib (\<lambda>d. 1)) xs)
   \<and> skipped_pdfs (fst (foldl (\<lambda>acc a. merge_pdf a acc) (st, e) xs))
       = skipped_pdfs st
         + sum_list (map (contrib (\<lambda>d. if status d = SkippedAlreadyProcessed then 1 else 0)) xs)
   \<and> run_total_pages (fst (foldl (\<lambda>acc a. merge_pdf a acc) (st, e) xs))
       = run_total_pages st + sum_list (map (contrib total_pages) xs)
   \<and> run_successful_pages (fst (foldl (\<lambda>acc a. merge_pdf a acc) (st, e) xs))
       = run_successful_pages st + sum_list (map (contrib successful_pages) xs)
   \<and> run_failed_pages (fst (foldl (\<lambda>acc a. merge_pdf a acc) (st, e) xs))
       = run_failed_pages st + sum_list (map (contrib failed_pages) xs)
   \<and> run_conventional_pages (fst (foldl (\<lambda>acc a. merge_pdf a acc) (st, e) xs))
       = run_conventional_pages st + sum_list (map (contrib conventional_pages) xs)
   \<and> run_gemini_ocr_pages (fst (foldl (\<lambda>acc a. merge_pdf a acc) (st, e) xs))
       = run_gemini_ocr_pages st + sum_list (map (contrib gemini_ocr_pages) xs)
   \<and> run_skipped_pages (fst (foldl (\<lambda>acc a. merge_pdf a acc) (st, e) xs))
       = run_skipped_pages st + sum_list (map (contrib get_skipped_pages) xs)"
proof (induction xs arbitrary: st e)
  case Nil
  show ?case by simp
next
  case (Cons a xs)
  obtain name r where a: "a = (name, r)" by (cases a)
  show ?case
  proof (cases r)
    case (Inl x)
    have m: "merge_pdf a (st, e) = (st, e @ [\<lparr>err_pdf_file = name, err_page = NA,
                        err_stage = ''pdf_processing'', err_error = Some x\<rparr>])"
      by (simp add: merge_pdf_def a Inl)
    have c: "\<And>f. contrib f a = 0" by (simp add: contrib_def a Inl)
    show ?thesis
      using Cons.IH [of st] by (simp add: m c)
  next
    case (Inr d)
    obtain st1 where m: "merge_pdf a (st, e) = (st1, e)"
      by (simp add: merge_pdf_def a Inr)
    have st1: "total_pdfs st1 = total_pdfs st"
      "processed_pdfs st1 = processed_pdfs st + 1"
      "skipped_pdfs st1 = skipped_pdfs st + (if status d = SkippedAlreadyProcessed then 1 else 0)"
      "run_total_pages st1 = run_total_pages st + total_pages d"
      "run_successful_pages st1 = run_successful_pages st + successful_pages d"
      "run_failed_pages st1 = run_failed_pages st + failed_pages d"
      "run_conventional_pages st1 = run_conventional_pages st + conventional_pages d"
      "run_gemini_ocr_pages st1 = run_gemini_ocr_pages st + gemini_ocr_pages d"
      "run_skipped_pages st1 = run_skipped_pages st + get_skipped_pages d"
      using m by (auto simp add: merge_pdf_def a Inr)
    have c: "\<And>f. contrib f a = f d" by (simp add: contrib_def a Inr)
    show ?thesis
      using Cons.IH [of st1 e] by (simp add: m c st1)
  qed
qed

lemma sum_list_map_mset:
  fixes g :: "'a \<Rightarrow> nat"
  assumes "mset xs = mset ys"
  shows "sum_list (map g xs) = sum_list (map g ys)"
proof -
  have "sum_list (map g xs) = sum_mset (image_mset g (mset xs))"
    by (simp add: sum_mset_sum_list [symmetric])
  also have "\<dots> = sum_mset (image_mset g (mset ys))"
    by (simp add: assms)
  also have "\<dots> = sum_list (map g ys)"
    by (simp add: sum_mset_sum_list [symmetric])
  finally show ?thesis .
qed

lemma process_all_pdfs_summary:
  "xs \<noteq> [] \<Longrightarrow>
   fst (process_all_pdfs xs errs) =
     Summary (fst (foldl (\<lambda>acc a. merge_pdf a acc)
                   (\<lparr>total_pdfs = length xs, processed_pdfs = 0, skipped_pdfs = 0,
                     run_total_pages = 0, run_successful_pages = 0, run_failed_pages = 0,
                     run_conventional_pages = 0, run_gemini_ocr_pages = 0,
                     run_skipped_pages = 0, pdf_details = []\<rparr>, errs) xs))"
  by (simp add: process_all_pdfs_def split: prod.splits)

text \<open>
  C8. The counters of the run summary do not depend on the order in which the documents
  complete: two arrival orders of the same document results give the same counters.
\<close>

theorem run_stats_order_independent:
  assumes "mset xs = mset ys"
  shows "summary_counters (fst (process_all_pdfs xs errs))
         = summary_counters (fst (process_all_pdfs ys errs))"
proof (cases "xs = []")
  case True
  with assms have "ys = []" by simp
  with True show ?thesis by simp
next
  case False
  with assms have ne: "ys \<noteq> []" by auto
  have len: "length xs = length ys"
    using assms by (rule mset_eq_length)
  note p = sum_list_map_mset [OF assms]
  show ?thesis
    by (simp add: process_all_pdfs_summary [OF False] process_all_pdfs_summary [OF ne]
          summary_counters_def merge_fold_counters len p)
qed

theorem run_stats_order_independent_witness:
  "mset [(''a.pdf'', Inr doc_a), (''b.pdf'', Inr doc_b), (''c.pdf'', Inl ''boom'')]
     = mset [(''c.pdf'', Inl ''boom''), (''b.pdf'', Inr doc_b), (''a.pdf'', Inr doc_a)]
   \<and> summary_counters (fst (process_all_pdfs
        [(''a.pdf'', Inr doc_a), (''b.pdf'', Inr doc_b), (''c.pdf'', Inl ''boom'')] []))
     = summary_counters (fst (process_all_pdfs
        [(''c.pdf'', Inl ''boom''), (''b.pdf'', Inr doc_b), (''a.pdf'', Inr doc_a)] []))
   \<and> summary_counters (fst (process_all_pdfs
        [(''a.pdf'', Inr doc_a), (''b.pdf'', Inr doc_b), (''c.pdf'', Inl ''boom'')] []))
     = [3, 2, 1, 8, 7, 1, 0, 7, 0]"
proof -
  have m: "mset [(''a.pdf'', Inr doc_a), (''b.pdf'', Inr doc_b), (''c.pdf'', Inl ''boom'')]
     = mset [(''c.pdf'', Inl ''boom''), (''b.pdf'', Inr doc_b), (''a.pdf'', Inr doc_a)]"
    by (simp add: doc_a_def doc_b_def)
  have v: "summary_counters (fst (process_all_pdfs
        [(''a.pdf'', Inr doc_a), (''b.pdf'', Inr doc_b), (''c.pdf'', Inl ''boom'')] []))
     = [3, 2, 1, 8, 7, 1, 0, 7, 0]"
    by (simp add: process_all_pdfs_def merge_pdf_def summary_counters_def doc_a_def doc_b_def
          get_skipped_pages_def)
  from m run_stats_order_independent [OF m, of "[]"] v show ?thesis by simp
qed


section \<open>The document scheduler\<close>

lemma precheck_state:
  "snd (is_pdf_already_processed env s)
     = (if results_dir s = None then s else log_event OpenDocument s)"
  by (simp add: is_pdf_already_processed_def Let_def split: option.splits sum.splits)

lemma is_complete_iff:
  "is_complete env s \<longleftrightarrow>
     (\<exists>d n. results_dir s = Some d \<and> open_precheck env = Inr n \<and> n \<le> fcard (fmdom d))"
  by (auto simp add: is_complete_def is_pdf_already_processed_def Let_def
      split: option.splits sum.splits)

lemma start_state_simps:
  "errors (start_state env s) = errors s"
  "processing_status (start_state env s) = processing_status s"
  "has_result (start_state env s) q = has_result s q"
  "trace (start_state env s)
     = trace s @ (if results_dir s = None then [OpenDocument] else [OpenDocument, OpenDocument])"
  by (simp_all add: start_state_def precheck_state state_simps has_result_simps)

lemma pdf_open_failed_simps:
  "fst (pdf_open_failed env st e s) = st\<lparr>status := Failed\<rparr>"
  "trace (snd (pdf_open_failed env st e s)) = trace s"
  "results_dir (snd (pdf_open_failed env st e s)) = results_dir s"
  "has_result (snd (pdf_open_failed env st e s)) q = has_result s q"
  "errors (snd (pdf_open_failed env st e s))
     = errors s @ [\<lparr>err_pdf_file = env_pdf_file env, err_page = NA,
                     err_stage = ''pdf_open'', err_error = Some e\<rparr>]"
  by (simp_all add: pdf_open_failed_def finish_pdf_def has_result_def state_simps)

text \<open>
  \<open>process_pdf\<close> on a document that is not found complete, opens and gets its temporary
  directory: the loop over the pages, then the handler or the final status.
\<close>

lemma process_pdf_loop:
  assumes "\<not> is_complete env s" and "open_document env = Inr n" and "temp_mkdir env = None"
  shows "process_pdf env order s =
           (case fst (fst (process_pages env order (start_stats env n) (start_state env s))) of
              Some e \<Rightarrow>
                pdf_open_failed env
                  (snd (fst (process_pages env order (start_stats env n) (start_state env s))))
                  e (snd (process_pages env order (start_stats env n) (start_state env s)))
            | None \<Rightarrow>
                finish_pdf
                  ((snd (fst (process_pages env order (start_stats env n) (start_state env s))))
                     \<lparr>status :=
                        (if failed_pages (snd (fst (process_pages env order (start_stats env n)
                                                     (start_state env s)))) = 0
                         then Completed else CompletedWithErrors)\<rparr>)
                  (snd (process_pages env order (start_stats env n) (start_state env s))))"
proof -
  obtain c t e s1 where pc: "is_pdf_already_processed env s = ((c, t, e), s1)"
    by (cases "is_pdf_already_processed env s") auto
  from assms(1) pc have nc: "\<not> c"
    by (simp add: is_complete_def)
  obtain x st2 s3
    where pp: "process_pages env order (start_stats env n) (start_state env s) = ((x, st2), s3)"
    by (cases "process_pages env order (start_stats env n) (start_state env s)") auto
  have pp': "process_pages env order
               \<lparr>pdf_name = env_pdf_name env, pdf_file = env_pdf_file env, total_pages = n,
                successful_pages = 0, failed_pages = 0, conventional_pages = 0,
                gemini_ocr_pages = 0, skipped_pages = Some 0, status = Processing\<rparr>
               (log_event OpenDocument s1) = ((x, st2), s3)"
    using pp pc by (simp add: start_stats_def start_state_def)
  show ?thesis
    using nc assms(2,3)
    by (simp add: process_pdf_def pc pp pp' Let_def split: option.splits)
qed

lemma process_pdf_processing:
  assumes "\<not> is_complete env s" and "open_document env = Inr n" and "temp_mkdir env = None"
    and "\<forall>p \<in> set order. exists_check (pages env p) = None"
  shows "process_pdf env order s =
           finish_pdf
             ((snd (fst (process_pages env order (start_stats env n) (start_state env s))))
                \<lparr>status :=
                   (if failed_pages (snd (fst (process_pages env order (start_stats env n)
                                                (start_state env s)))) = 0
                    then Completed else CompletedWithErrors)\<rparr>)
             (snd (process_pages env order (start_stats env n) (start_state env s)))"
  using process_pages_counters [OF assms(4), of "start_stats env n" "start_state env s"]
  by (simp add: process_pdf_loop [OF assms(1-3)])

lemma schedule_facts:
  assumes "mset order = mset [0..<n]"
  shows "distinct order" and "set order = {0..<n}" and "length order = n"
proof -
  show "distinct order"
    using assms mset_eq_imp_distinct_iff [of order "[0..<n]"] by simp
  show "set order = {0..<n}"
    using mset_eq_setD [OF assms] by simp
  show "length order = n"
    using mset_eq_length [OF assms] by simp
qed

lemma finish_pdf_simps:
  "fst (finish_pdf st s) = st"
  "errors (snd (finish_pdf st s)) = errors s"
  "trace (snd (finish_pdf st s)) = trace s"
  "results_dir (snd (finish_pdf st s)) = results_dir s"
  "has_result (snd (finish_pdf st s)) q = has_result s q"
  by (simp_all add: finish_pdf_def has_result_def)

text \<open>
  C10 (as amended). For a document whose set-up in \<open>process_pdf\<close> raises nothing (the file
  opens and its temporary directory can be created), that the resumability check does
  not find complete, and none of whose workers raises at the test of its result file,
  whatever the order in which its pages complete: the successful and the failed pages
  add up to the page count, the successful pages are the recognised and the skipped
  ones, and no page is counted as conventional.
\<close>

theorem process_pdf_counters:
  assumes "\<not> is_complete env s" and "open_document env = Inr n" and "temp_mkdir env = None"
    and "mset order = mset [0..<n]"
    and "\<forall>p<n. exists_check (pages env p) = None"
  shows "total_pages (fst (process_pdf env order s)) = n
       \<and> successful_pages (fst (process_pdf env order s))
           + failed_pages (fst (process_pdf env order s))
         = total_pages (fst (process_pdf env order s))
       \<and> successful_pages (fst (process_pdf env order s))
         = gemini_ocr_pages (fst (process_pdf env order s))
           + get_skipped_pages (fst (process_pdf env order s))
       \<and> conventional_pages (fst (process_pdf env order s)) = 0"
proof -
  note sched = schedule_facts [OF assms(4)]
  have ok: "\<forall>p \<in> set order. exists_check (pages env p) = None"
    using assms(5) sched(2) by simp
  note c = process_pages_counters [OF ok, of "start_stats env n" "start_state env s"]
  note f = process_pages_fixed [of env order "start_stats env n" "start_state env s"]
  show ?thesis
    using c f sched(3)
    by (simp add: process_pdf_processing [OF assms(1-3) ok] finish_pdf_simps start_stats_def
          get_skipped_pages_def)
qed

lemma clean_braces: "clean_response (lit ''{}'') = lit ''{}''"
  by (simp add: clean_response_def lit_def py_strip_def py_isspace_def startswith_def
        endswith_def fence_def fence_json_def Let_def)

lemma scenario_is_not_complete: "\<not> is_complete scenario_env empty_state"
  by (simp add: is_complete_iff empty_state_simps)

theorem process_pdf_counters_witness:
  "\<not> is_complete scenario_env empty_state \<and> open_document scenario_env = Inr 3
   \<and> temp_mkdir scenario_env = None \<and> mset [2, 0, 1] = mset [0..<3]
   \<and> exists_check (pages scenario_env 0) = None \<and> exists_check (pages scenario_env 1) = None
   \<and> exists_check (pages scenario_env 2) = None
   \<and> total_pages (fst (process_pdf scenario_env [2, 0, 1] empty_state)) = 3
   \<and> successful_pages (fst (process_pdf scenario_env [2, 0, 1] empty_state))
       + failed_pages (fst (process_pdf scenario_env [2, 0, 1] empty_state))
     = total_pages (fst (process_pdf scenario_env [2, 0, 1] empty_state))
   \<and> successful_pages (fst (process_pdf scenario_env [2, 0, 1] empty_state))
     = gemini_ocr_pages (fst (process_pdf scenario_env [2, 0, 1] empty_state))
       + get_skipped_pages (fst (process_pdf scenario_env [2, 0, 1] empty_state))
   \<and> conventional_pages (fst (process_pdf scenario_env [2, 0, 1] empty_state)) = 0"
proof -
  have a: "\<not> is_complete scenario_env empty_state"
    by (rule scenario_is_not_complete)
  have b: "open_document scenario_env = Inr 3" and c: "temp_mkdir scenario_env = None"
    by (simp_all add: scenario_env_def)
  have d: "mset [2, 0, 1] = mset [0..<(3::nat)]"
    by (simp del: mset_upt add: eval_nat_numeral add_mset_commute)
  have e: "\<forall>p<3. exists_check (pages scenario_env p) = None"
    by (simp add: scenario_env_def scenario_pages_def)
  have e': "exists_check (pages scenario_env 0) = None \<and> exists_check (pages scenario_env 1) = None
            \<and> exists_check (pages scenario_env 2) = None"
    by (simp add: scenario_env_def scenario_pages_def)
  from process_pdf_counters [OF a b c d e] a b c d e' show ?thesis
    by simp
qed

lemma no_temp_dir_not_complete: "\<not> is_complete no_temp_dir empty_state"
  by (simp add: is_complete_iff empty_state_simps)

text \<open>
  C10 as stated fails: the three-page document opens and is not skipped, but its
  temporary directory cannot be created; the statistics then hold three pages, none
  successful and none failed.
\<close>

theorem process_pdf_counters_counterexample:
  "open_document no_temp_dir = Inr 3 \<and> \<not> is_complete no_temp_dir empty_state
   \<and> total_pages (fst (process_pdf no_temp_dir [0, 1, 2] empty_state)) = 3
   \<and> successful_pages (fst (process_pdf no_temp_dir [0, 1, 2] empty_state)) = 0
   \<and> failed_pages (fst (process_pdf no_temp_dir [0, 1, 2] empty_state)) = 0
   \<and> status (fst (process_pdf no_temp_dir [0, 1, 2] empty_state)) = Failed"
proof -
  have a: "open_document no_temp_dir = Inr 3"
    by (simp add: no_temp_dir_def scenario_env_def)
  have b: "fst (process_pdf no_temp_dir [0, 1, 2] empty_state)
           = (start_stats no_temp_dir 3)\<lparr>status := Failed\<rparr>"
    by (simp add: process_pdf_def is_pdf_already_processed_def empty_state_def
          no_temp_dir_def scenario_env_def pdf_open_failed_def finish_pdf_def start_stats_def
          Let_def)
  from a b no_temp_dir_not_complete show ?thesis
    by (simp add: start_stats_def)
qed


section \<open>The page worker, case by case\<close>

lemma async_entered:
  "process_page_image_async env pe k = Inr r \<Longrightarrow> acquire pe = None"
  by (simp add: process_page_image_async_def split: option.splits)

lemma psp_recognised:
  assumes "\<not> has_result s (Suc p)" and "open_page (pages env p) = None"
    and "render (pages env p) = None"
    and "process_page_image_async env (pages env p) (Suc p) = Inr r"
  shows "process_single_page env p s =
     (case save (pages env p) of
        SaveOk \<Rightarrow>
          (page_success (Suc p),
           write_file (PageJson (Suc p)) (Complete r)
             (log_event (WriteResult (Suc p)) (make_results_dir (recognised (Suc p) s))))
      | MkdirFails e \<Rightarrow> (page_failure (Suc p) e, recognised (Suc p) s)
      | OpenFails e \<Rightarrow>
          (page_success (Suc p),
           add_error (save_error env (Suc p) e)
             (log_event (WriteResult (Suc p)) (make_results_dir (recognised (Suc p) s))))
      | DumpFails e \<Rightarrow>
          (page_success (Suc p),
           add_error (save_error env (Suc p) e)
             (write_file (PageJson (Suc p)) Incomplete
                (log_event (WriteResult (Suc p)) (make_results_dir (recognised (Suc p) s))))))"
  using assms async_entered [OF assms(4)]
  by (simp add: process_single_page_def process_page_image_def save_page_result_def Let_def
        recognised_def save_error_def page_success_def
      split: save_outcome.splits)

lemma psp_not_recognised:
  assumes "\<not> has_result s (Suc p)" and "open_page (pages env p) = None"
    and "render (pages env p) = None"
    and "process_page_image_async env (pages env p) (Suc p) = Inl e"
  shows "process_single_page env p s =
     (page_failure (Suc p) ''OCR returned no result'',
      add_error \<lparr>err_pdf_file = env_pdf_name env @ ''.pdf'', err_page = Page (Suc p),
                 err_stage = ''gemini_ocr_processing'', err_error = Some e\<rparr>
        (requested (pages env p) (Suc p) s))"
  using assms
  by (simp add: process_single_page_def process_page_image_def Let_def recognised_def
        requested_def split: option.splits)

lemma async_fallback:
  assumes "acquire pe = None" and "response pe = Inr raw"
    and "json_loads env (clean_response raw) = JSONDecodeError"
  shows "process_page_image_async env pe k =
           Inr ((fallback_result raw)\<lparr>res_metadata := Some (gemini_metadata (env_pdf_name env) k)\<rparr>)"
  using assms
  by (simp add: process_page_image_async_def generate_def fallback_result_def has_len_def Let_def)

lemma recognised_simps:
  "errors (recognised k s) = errors s"
  "trace (recognised k s) = trace s @ [OpenPage k, RenderPage k, AcquirePermit k, Recognize k]"
  "results_dir (recognised k s) = results_dir s"
  "processing_status (recognised k s) = processing_status s"
  "has_result (recognised k s) q = has_result s q"
  by (simp_all add: recognised_def state_simps has_result_simps)

lemma requested_simps:
  "errors (requested pe k s) = errors s"
  "trace (requested pe k s)
     = trace s @ [OpenPage k, RenderPage k, AcquirePermit k]
       @ (if acquire pe = None then [Recognize k] else [])"
  "results_dir (requested pe k s) = results_dir s"
  "processing_status (requested pe k s) = processing_status s"
  "has_result (requested pe k s) q = has_result s q"
  by (simp_all add: requested_def recognised_simps state_simps has_result_simps
        split: option.splits)

lemma one_page_simps:
  "exists_check (pages (one_page sv resp) p) = None"
  "open_page (pages (one_page sv resp) p) = None"
  "acquire (pages (one_page sv resp) p) = None"
  "render (pages (one_page sv resp) p) = None"
  "save (pages (one_page sv resp) p) = sv"
  "response (pages (one_page sv resp) p) = resp"
  "env_pdf_name (one_page sv resp) = ''doc''"
  "env_pdf_file (one_page sv resp) = ''doc.pdf''"
  "open_document (one_page sv resp) = Inr 1"
  "temp_mkdir (one_page sv resp) = None"
  "json_loads (one_page sv resp) = scenario_loads"
  by (simp_all add: one_page_def)

lemma one_page_async:
  "process_page_image_async (one_page sv (Inr (lit ''{}''))) (pages (one_page sv (Inr (lit ''{}''))) p) k
     = Inr (empty_object_result k)"
  by (simp add: process_page_image_async_def generate_def one_page_simps scenario_loads_def
        clean_braces dict_get_def has_len_def Let_def empty_object_result_def)

lemma one_page_not_complete: "\<not> is_complete (one_page sv resp) empty_state"
  by (simp add: is_complete_iff empty_state_simps)


section \<open>Persistence failures\<close>

text \<open>
  C6 (as amended). When the extraction of a page succeeds and its result file cannot be
  written (opening or dumping raises), the worker records an error with the stage tag
  \<open>save_result\<close> and still reports the page as a success that was not skipped; the file
  is absent when opening failed. When the results directory cannot be created the
  worker reports the page as a failure, records nothing itself, and the scheduler
  records the failure with the stage tag \<open>page_processing\<close>. The records of a failed
  extraction carry the stage tag \<open>gemini_ocr_processing\<close>.
\<close>

theorem save_failure_reported_as_success:
  assumes "\<not> has_result s (Suc p)" and "open_page (pages env p) = None"
    and "render (pages env p) = None"
    and "process_page_image_async env (pages env p) (Suc p) = Inr r"
  shows "(save (pages env p) = OpenFails e \<or> save (pages env p) = DumpFails e \<longrightarrow>
            fst (process_single_page env p s)
              = \<lparr>pr_page = Suc p, pr_success = True, pr_error = None, pr_skipped = False\<rparr>
          \<and> new_errors s (snd (process_single_page env p s))
              = [\<lparr>err_pdf_file = env_pdf_name env @ ''.pdf'', err_page = Page (Suc p),
                   err_stage = ''save_result'', err_error = Some e\<rparr>]
          \<and> has_result (snd (process_single_page env p s)) (Suc p)
              = (save (pages env p) = DumpFails e))
       \<and> (save (pages env p) = MkdirFails e \<longrightarrow>
            fst (process_single_page env p s)
              = \<lparr>pr_page = Suc p, pr_success = False, pr_error = Some e, pr_skipped = False\<rparr>
          \<and> new_errors s (snd (process_single_page env p s)) = []
          \<and> \<not> has_result (snd (process_single_page env p s)) (Suc p)
          \<and> new_errors s (snd (collect_page env (fst (process_single_page env p s)) st
                                  (snd (process_single_page env p s))))
              = [\<lparr>err_pdf_file = env_pdf_file env, err_page = Page (Suc p),
                   err_stage = ''page_processing'', err_error = Some e\<rparr>])
       \<and> map err_stage (new_errors s0 (snd (process_page_image env pe k s0)))
           = (case process_page_image_async env pe k of
                Inl _ \<Rightarrow> [''gemini_ocr_processing''] | Inr _ \<Rightarrow> [])"
proof -
  note w = psp_recognised [OF assms]
  have a: "save (pages env p) = OpenFails e \<or> save (pages env p) = DumpFails e \<longrightarrow>
            fst (process_single_page env p s)
              = \<lparr>pr_page = Suc p, pr_success = True, pr_error = None, pr_skipped = False\<rparr>
          \<and> new_errors s (snd (process_single_page env p s))
              = [\<lparr>err_pdf_file = env_pdf_name env @ ''.pdf'', err_page = Page (Suc p),
                   err_stage = ''save_result'', err_error = Some e\<rparr>]
          \<and> has_result (snd (process_single_page env p s)) (Suc p)
              = (save (pages env p) = DumpFails e)"
    using assms(1)
    by (auto simp add: w new_errors_def state_simps recognised_simps has_result_simps
          page_success_def save_error_def)
  have b: "save (pages env p) = MkdirFails e \<longrightarrow>
            fst (process_single_page env p s)
              = \<lparr>pr_page = Suc p, pr_success = False, pr_error = Some e, pr_skipped = False\<rparr>
          \<and> new_errors s (snd (process_single_page env p s)) = []
          \<and> \<not> has_result (snd (process_single_page env p s)) (Suc p)
          \<and> new_errors s (snd (collect_page env (fst (process_single_page env p s)) st
                                  (snd (process_single_page env p s))))
              = [\<lparr>err_pdf_file = env_pdf_file env, err_page = Page (Suc p),
                   err_stage = ''page_processing'', err_error = Some e\<rparr>]"
    using assms(1)
    by (auto simp add: w new_errors_def state_simps recognised_simps has_result_simps
          collect_page_state page_failure_def)
  have d: "map err_stage (new_errors s0 (snd (process_page_image env pe k s0)))
           = (case process_page_image_async env pe k of
                Inl _ \<Rightarrow> [''gemini_ocr_processing''] | Inr _ \<Rightarrow> [])"
    by (simp add: process_page_image_def Let_def new_errors_def state_simps
        split: sum.splits option.splits)
  from a b d show ?thesis by blast
qed

theorem save_failure_reported_as_success_witness:
  "\<not> has_result empty_state (Suc 0)
   \<and> open_page (pages (one_page (OpenFails ''disk full'') (Inr (lit ''{}''))) 0) = None
   \<and> render (pages (one_page (OpenFails ''disk full'') (Inr (lit ''{}''))) 0) = None
   \<and> process_page_image_async (one_page (OpenFails ''disk full'') (Inr (lit ''{}'')))
        (pages (one_page (OpenFails ''disk full'') (Inr (lit ''{}''))) 0) (Suc 0)
       = Inr (empty_object_result 1)
   \<and> save (pages (one_page (OpenFails ''disk full'') (Inr (lit ''{}''))) 0)
       = OpenFails ''disk full''
   \<and> save (pages (one_page (MkdirFails ''denied'') (Inr (lit ''{}''))) 0) = MkdirFails ''denied''
   \<and> fst (process_single_page (one_page (OpenFails ''disk full'') (Inr (lit ''{}''))) 0 empty_state)
       = \<lparr>pr_page = 1, pr_success = True, pr_error = None, pr_skipped = False\<rparr>
   \<and> new_errors empty_state
        (snd (process_single_page (one_page (OpenFails ''disk full'') (Inr (lit ''{}''))) 0
                empty_state))
       = [\<lparr>err_pdf_file = ''doc.pdf'', err_page = Page 1, err_stage = ''save_result'',
            err_error = Some ''disk full''\<rparr>]
   \<and> fst (process_single_page (one_page (MkdirFails ''denied'') (Inr (lit ''{}''))) 0 empty_state)
       = \<lparr>pr_page = 1, pr_success = False, pr_error = Some ''denied'', pr_skipped = False\<rparr>"
proof -
  let ?e1 = "one_page (OpenFails ''disk full'') (Inr (lit ''{}''))"
  let ?e2 = "one_page (MkdirFails ''denied'') (Inr (lit ''{}''))"
  have h: "\<not> has_result empty_state (Suc 0)"
    by (rule has_result_empty)
  note t1 = save_failure_reported_as_success
    [of empty_state 0 ?e1 "empty_object_result 1" "''disk full''", OF h]
  note t2 = save_failure_reported_as_success
    [of empty_state 0 ?e2 "empty_object_result 1" "''denied''", OF h]
  from h t1 t2 show ?thesis
    by (simp add: one_page_simps one_page_async)
qed

text \<open>
  C6 as stated fails: the extraction of the page succeeds, opening its result file
  raises, no file exists afterwards, and the page is reported and counted as a success.
\<close>

theorem save_failure_counterexample:
  "pr_success (fst (process_single_page (one_page (OpenFails ''disk full'') (Inr (lit ''{}''))) 0
                      empty_state))
   \<and> \<not> has_result (snd (process_single_page (one_page (OpenFails ''disk full'') (Inr (lit ''{}'')))
                             0 empty_state)) 1
   \<and> successful_pages (fst (process_pdf (one_page (OpenFails ''disk full'') (Inr (lit ''{}''))) [0]
                              empty_state)) = 1
   \<and> failed_pages (fst (process_pdf (one_page (OpenFails ''disk full'') (Inr (lit ''{}''))) [0]
                          empty_state)) = 0"
proof -
  let ?e1 = "one_page (OpenFails ''disk full'') (Inr (lit ''{}''))"
  have h: "\<not> has_result empty_state (Suc 0)"
    by (rule has_result_empty)
  have w: "process_single_page ?e1 0 empty_state =
     (page_success 1,
      add_error (save_error ?e1 1 ''disk full'')
        (log_event (WriteResult 1) (make_results_dir (recognised 1 empty_state))))"
    using psp_recognised [of empty_state 0 ?e1 "empty_object_result 1", OF h]
    by (simp add: one_page_simps one_page_async)
  have a: "pr_success (fst (process_single_page ?e1 0 empty_state))"
    by (simp add: w page_success_def)
  have b: "\<not> has_result (snd (process_single_page ?e1 0 empty_state)) 1"
    by (simp add: w has_result_simps recognised_simps has_result_empty)
  have hs: "\<not> has_result (start_state ?e1 empty_state) (Suc 0)"
    by (simp add: start_state_simps has_result_empty)
  have w2: "process_single_page ?e1 0 (start_state ?e1 empty_state) =
     (page_success 1,
      add_error (save_error ?e1 1 ''disk full'')
        (log_event (WriteResult 1) (make_results_dir (recognised 1 (start_state ?e1 empty_state)))))"
    using psp_recognised [of "start_state ?e1 empty_state" 0 ?e1 "empty_object_result 1", OF hs]
    by (simp add: one_page_simps one_page_async)
  have c: "fst (process_pdf ?e1 [0] empty_state)
           = (start_stats ?e1 1)\<lparr>successful_pages := 1, gemini_ocr_pages := 1, status := Completed\<rparr>"
    by (simp add: process_pdf_loop [where n = 1 and env = ?e1 and s = empty_state, OF one_page_not_complete] one_page_simps
          finish_pdf_simps w2 collect_page_def page_success_def start_stats_def Let_def)
  from a b c show ?thesis
    by (simp add: start_stats_def)
qed


section \<open>The three-page document, evaluated\<close>

lemma scenario_simps:
  "exists_check (pages scenario_env p) = None"
  "open_page (pages scenario_env p) = None"
  "acquire (pages scenario_env p) = None"
  "render (pages scenario_env p) = None"
  "save (pages scenario_env p) = SaveOk"
  "response (pages scenario_env p) = (if p = 2 then Inl ''quota exceeded'' else Inr (lit ''{}''))"
  "embedded_text (pages scenario_env p) = (if p = 0 then rich_text else [])"
  "env_pdf_name scenario_env = ''doc''"
  "env_pdf_file scenario_env = ''doc.pdf''"
  "open_document scenario_env = Inr 3"
  "open_precheck scenario_env = Inr 3"
  "temp_mkdir scenario_env = None"
  "json_loads scenario_env = scenario_loads"
  by (simp_all add: scenario_env_def scenario_pages_def)

lemma scenario_async:
  "process_page_image_async scenario_env (pages scenario_env p) k
     = (if p = 2 then Inl ''quota exceeded'' else Inr (empty_object_result k))"
  by (simp add: process_page_image_async_def generate_def scenario_simps scenario_loads_def
        clean_braces dict_get_def has_len_def Let_def empty_object_result_def)

lemma rich_text_selected: "check_page_has_text rich_text"
  by (simp add: check_page_has_text_def rich_text_def ten_words_def lit_def py_strip_def
        py_split_def py_isspace_def MIN_TEXT_LENGTH_def MIN_WORDS_def Let_def)

lemma scenario_stats:
  "fst (process_pdf scenario_env [0, 1, 2] empty_state) =
     \<lparr>pdf_name = ''doc'', pdf_file = ''doc.pdf'', total_pages = 3, successful_pages = 2,
      failed_pages = 1, conventional_pages = 0, gemini_ocr_pages = 2,
      skipped_pages = Some 0, status = CompletedWithErrors\<rparr>"
  by (simp add: process_pdf_def is_pdf_already_processed_def empty_state_def
        process_single_page_def process_page_image_def save_page_result_def collect_page_def
        scenario_simps scenario_async has_result_def log_event_def add_error_def
        make_results_dir_def write_file_def finish_pdf_def Let_def page_failure_def)

lemma scenario_errors:
  "errors (snd (process_pdf scenario_env [0, 1, 2] empty_state)) =
     [\<lparr>err_pdf_file = ''doc.pdf'', err_page = Page 3, err_stage = ''gemini_ocr_processing'',
       err_error = Some ''quota exceeded''\<rparr>,
      \<lparr>err_pdf_file = ''doc.pdf'', err_page = Page 3, err_stage = ''page_processing'',
       err_error = Some ''OCR returned no result''\<rparr>]"
  by (simp add: process_pdf_def is_pdf_already_processed_def empty_state_def
        process_single_page_def process_page_image_def save_page_result_def collect_page_def
        scenario_simps scenario_async has_result_def log_event_def add_error_def
        make_results_dir_def write_file_def finish_pdf_def Let_def page_failure_def)

lemma scenario_page1:
  "process_single_page scenario_env 0 empty_state =
     (\<lparr>pr_page = 1, pr_success = True, pr_error = None, pr_skipped = False\<rparr>,
      \<lparr>results_dir = Some (fmupd (PageJson 1) (Complete (empty_object_result 1)) fmempty),
       errors = [], processing_status = [],
       trace = [OpenPage 1, RenderPage 1, AcquirePermit 1, Recognize 1, WriteResult 1]\<rparr>)"
  by (simp add: empty_state_def
        process_single_page_def process_page_image_def save_page_result_def
        scenario_simps scenario_async has_result_def log_event_def add_error_def
        make_results_dir_def write_file_def Let_def)

lemma async_metadata:
  "process_page_image_async env pe k = Inr r \<Longrightarrow>
   res_metadata r = Some (gemini_metadata (env_pdf_name env) k)"
  by (auto simp add: process_page_image_async_def Let_def
      split: sum.splits if_splits option.splits)

lemma process_pdf_conventional: "conventional_pages (fst (process_pdf env order s)) = 0"
proof -
  obtain c t e s1 where pc: "is_pdf_already_processed env s = ((c, t, e), s1)"
    by (cases "is_pdf_already_processed env s") auto
  have k: "\<And>st s2. conventional_pages st = 0 \<Longrightarrow>
             conventional_pages (snd (fst (process_pages env order st s2))) = 0"
    using process_pages_fixed by simp
  show ?thesis
    by (simp add: process_pdf_def pc Let_def pdf_open_failed_def finish_pdf_simps k
          case_prod_beta
        split: sum.splits option.splits)
qed

lemma psp_ignores_text:
  "process_single_page (env\<lparr>pages := (pages env)(p := (pages env p)\<lparr>embedded_text := t\<rparr>)\<rparr>) p s
     = process_single_page env p s"
proof -
  let ?env' = "env\<lparr>pages := (pages env)(p := (pages env p)\<lparr>embedded_text := t\<rparr>)\<rparr>"
  let ?pe' = "(pages env p)\<lparr>embedded_text := t\<rparr>"
  have a: "\<And>k. process_page_image_async ?env' ?pe' k
                 = process_page_image_async env (pages env p) k"
    by (simp add: process_page_image_async_def cong: sum.case_cong option.case_cong)
  have b: "\<And>k s. process_page_image ?env' ?pe' k s = process_page_image env (pages env p) k s"
    by (simp add: process_page_image_def a cong: sum.case_cong option.case_cong)
  have c: "\<And>r k s. save_page_result ?env' ?pe' r k s = save_page_result env (pages env p) r k s"
    by (simp add: save_page_result_def cong: save_outcome.case_cong)
  show ?thesis
    by (simp add: process_single_page_def b c Let_def
        cong: option.case_cong prod.case_cong)
qed

lemma psp_requests:
  assumes "\<not> has_result s (Suc p)" and "open_page (pages env p) = None"
    and "render (pages env p) = None"
  shows "AcquirePermit (Suc p) \<in> set (new_events s (snd (process_single_page env p s)))"
    and "acquire (pages env p) = None \<Longrightarrow>
         Recognize (Suc p) \<in> set (new_events s (snd (process_single_page env p s)))"
    and "acquire (pages env p) \<noteq> None \<Longrightarrow>
         Recognize (Suc p) \<notin> set (new_events s (snd (process_single_page env p s)))"
proof -
  have "AcquirePermit (Suc p) \<in> set (new_events s (snd (process_single_page env p s)))
      \<and> (acquire (pages env p) = None \<longrightarrow>
         Recognize (Suc p) \<in> set (new_events s (snd (process_single_page env p s))))
      \<and> (acquire (pages env p) \<noteq> None \<longrightarrow>
         Recognize (Suc p) \<notin> set (new_events s (snd (process_single_page env p s))))"
  proof (cases "process_page_image_async env (pages env p) (Suc p)")
    case (Inl e)
    show ?thesis
      by (simp add: psp_not_recognised [OF assms Inl] new_events_def state_simps
            requested_simps)
  next
    case (Inr r)
    show ?thesis
      using async_entered [OF Inr]
      by (simp add: psp_recognised [OF assms Inr] new_events_def state_simps recognised_simps
          split: save_outcome.splits)
  qed
  then show "AcquirePermit (Suc p) \<in> set (new_events s (snd (process_single_page env p s)))"
    and "acquire (pages env p) = None \<Longrightarrow>
         Recognize (Suc p) \<in> set (new_events s (snd (process_single_page env p s)))"
    and "acquire (pages env p) \<noteq> None \<Longrightarrow>
         Recognize (Suc p) \<notin> set (new_events s (snd (process_single_page env p s)))"
    by simp_all
qed

lemma psp_artifact_method:
  assumes "\<not> has_result s (Suc p)"
    and "results_dir (snd (process_single_page env p s)) = Some d"
    and "fmlookup d (PageJson (Suc p)) = Some (Complete r)"
  shows "map_option md_extraction_method (res_metadata r) = Some ''gemini_2.5_flash_ocr''"
  using assms async_metadata [of env "pages env p" "Suc p"]
  by (auto simp add: process_single_page_def process_page_image_def save_page_result_def
        Let_def state_simps has_result_def gemini_metadata_def fmlookup_dom_iff
      split: option.splits sum.splits save_outcome.splits if_splits)


section \<open>The worker and the selector\<close>

lemma rich_page_simps:
  "exists_check (pages rich_page p) = None"
  "open_page (pages rich_page p) = None"
  "render (pages rich_page p) = None"
  "acquire (pages rich_page p) = None"
  "save (pages rich_page p) = SaveOk"
  "response (pages rich_page p) = Inr (lit ''{}'')"
  "embedded_text (pages rich_page p) = rich_text"
  "env_pdf_name rich_page = ''doc''"
  "env_pdf_file rich_page = ''doc.pdf''"
  "open_document rich_page = Inr 1"
  "open_precheck rich_page = Inr 1"
  "temp_mkdir rich_page = None"
  "json_loads rich_page = scenario_loads"
  by (simp_all add: rich_page_def one_page_def)

lemma rich_page_async:
  "process_page_image_async rich_page (pages rich_page p) k = Inr (empty_object_result k)"
  by (simp add: process_page_image_async_def generate_def rich_page_simps scenario_loads_def
        clean_braces dict_get_def has_len_def Let_def empty_object_result_def)

lemma rich_page_worker:
  "process_single_page rich_page 0 empty_state =
     (\<lparr>pr_page = 1, pr_success = True, pr_error = None, pr_skipped = False\<rparr>,
      \<lparr>results_dir = Some (fmupd (PageJson 1) (Complete (empty_object_result 1)) fmempty),
       errors = [], processing_status = [],
       trace = [OpenPage 1, RenderPage 1, AcquirePermit 1, Recognize 1, WriteResult 1]\<rparr>)"
  by (simp add: empty_state_def
        process_single_page_def process_page_image_def save_page_result_def
        rich_page_simps rich_page_async has_result_def log_event_def add_error_def
        make_results_dir_def write_file_def Let_def)

lemma rich_page_stats:
  "fst (process_pdf rich_page [0] empty_state) =
     \<lparr>pdf_name = ''doc'', pdf_file = ''doc.pdf'', total_pages = 1, successful_pages = 1,
      failed_pages = 0, conventional_pages = 0, gemini_ocr_pages = 1,
      skipped_pages = Some 0, status = Completed\<rparr>"
  by (simp add: process_pdf_def is_pdf_already_processed_def empty_state_def
        process_single_page_def process_page_image_def save_page_result_def collect_page_def
        rich_page_simps rich_page_async has_result_def log_event_def add_error_def
        make_results_dir_def write_file_def finish_pdf_def Let_def page_failure_def)

text \<open>
  C1 (as amended). The page worker does not consult the selector: its result and its
  effects are the same whatever the embedded text of the page. For a page without an
  artifact that opens and renders it requests a permit of the rate limiter, and it
  issues a recognition call exactly when the limiter is entered; a complete result file
  that it writes carries the extraction method \<open>gemini_2.5_flash_ocr\<close>; a success that
  was not skipped is counted under \<open>gemini_ocr_pages\<close>, and \<open>conventional_pages\<close> of a
  document is always 0.
\<close>

theorem worker_always_recognises:
  "process_single_page
     (env\<lparr>pages := (pages env)(p := (pages env p)\<lparr>embedded_text := t\<rparr>)\<rparr>) p s
     = process_single_page env p s
   \<and> (\<not> has_result s (Suc p) \<and> open_page (pages env p) = None \<and> render (pages env p) = None
        \<longrightarrow> AcquirePermit (Suc p) \<in> set (new_events s (snd (process_single_page env p s)))
          \<and> (Recognize (Suc p) \<in> set (new_events s (snd (process_single_page env p s))))
            = (acquire (pages env p) = None))
   \<and> (\<not> has_result s (Suc p) \<and> results_dir (snd (process_single_page env p s)) = Some d
        \<and> fmlookup d (PageJson (Suc p)) = Some (Complete r)
        \<longrightarrow> map_option md_extraction_method (res_metadata r) = Some ''gemini_2.5_flash_ocr'')
   \<and> (pr_success pr \<and> \<not> pr_skipped pr
        \<longrightarrow> gemini_ocr_pages (fst (collect_page env pr st s')) = gemini_ocr_pages st + 1
          \<and> conventional_pages (fst (collect_page env pr st s')) = conventional_pages st)
   \<and> conventional_pages (fst (process_pdf env order s)) = 0"
proof -
  have b: "\<not> has_result s (Suc p) \<and> open_page (pages env p) = None \<and> render (pages env p) = None
        \<longrightarrow> AcquirePermit (Suc p) \<in> set (new_events s (snd (process_single_page env p s)))
          \<and> (Recognize (Suc p) \<in> set (new_events s (snd (process_single_page env p s))))
            = (acquire (pages env p) = None)"
    using psp_requests [of s p env] by blast
  show ?thesis
    using psp_ignores_text [of env p t s] b
      psp_artifact_method [of s p env d r] process_pdf_conventional [of env order s]
    by (simp add: collect_page_counters)
qed

theorem worker_always_recognises_witness:
  "check_page_has_text (embedded_text (pages rich_page 0))
   \<and> \<not> has_result empty_state (Suc 0)
   \<and> open_page (pages rich_page 0) = None \<and> render (pages rich_page 0) = None
   \<and> acquire (pages rich_page 0) = None
   \<and> results_dir (snd (process_single_page rich_page 0 empty_state))
       = Some (fmupd (PageJson 1) (Complete (empty_object_result 1)) fmempty)
   \<and> fmlookup (fmupd (PageJson 1) (Complete (empty_object_result 1)) fmempty) (PageJson (Suc 0))
       = Some (Complete (empty_object_result 1))
   \<and> pr_success (fst (process_single_page rich_page 0 empty_state))
   \<and> \<not> pr_skipped (fst (process_single_page rich_page 0 empty_state))
   \<and> process_single_page
       (rich_page\<lparr>pages := (pages rich_page)(0 := (pages rich_page 0)\<lparr>embedded_text := []\<rparr>)\<rparr>)
       0 empty_state
     = process_single_page rich_page 0 empty_state
   \<and> AcquirePermit (Suc 0)
       \<in> set (new_events empty_state (snd (process_single_page rich_page 0 empty_state)))
   \<and> Recognize (Suc 0)
       \<in> set (new_events empty_state (snd (process_single_page rich_page 0 empty_state)))
   \<and> map_option md_extraction_method (res_metadata (empty_object_result 1))
       = Some ''gemini_2.5_flash_ocr''
   \<and> gemini_ocr_pages (fst (collect_page rich_page
        (fst (process_single_page rich_page 0 empty_state)) (start_stats rich_page 1)
        empty_state)) = 1"
proof -
  have a: "check_page_has_text (embedded_text (pages rich_page 0))"
    by (simp add: rich_page_simps rich_text_selected)
  have h: "\<not> has_result empty_state (Suc 0)"
    by (rule has_result_empty)
  note t = worker_always_recognises
    [of rich_page 0 "[]" empty_state
        "fmupd (PageJson 1) (Complete (empty_object_result 1)) fmempty"
        "empty_object_result 1" "fst (process_single_page rich_page 0 empty_state)"
        "start_stats rich_page 1" empty_state "[0]"]
  from a h t show ?thesis
    by (simp add: rich_page_simps rich_page_worker start_stats_def)
qed

text \<open>
  C1 as stated fails: for the one page of this document the selector answers
  conventional, yet the worker calls the recognition service for it, the result it
  writes carries the recognition method, and the document counts no conventional page
  and one recognised page.
\<close>

theorem worker_always_recognises_counterexample:
  "check_page_has_text (embedded_text (pages rich_page 0))
   \<and> Recognize 1 \<in> set (trace (snd (process_single_page rich_page 0 empty_state)))
   \<and> results_dir (snd (process_single_page rich_page 0 empty_state))
       = Some (fmupd (PageJson 1) (Complete (empty_object_result 1)) fmempty)
   \<and> map_option md_extraction_method (res_metadata (empty_object_result 1))
       = Some ''gemini_2.5_flash_ocr''
   \<and> conventional_pages (fst (process_pdf rich_page [0] empty_state)) = 0
   \<and> gemini_ocr_pages (fst (process_pdf rich_page [0] empty_state)) = 1"
proof -
  have st: "conventional_pages (fst (process_pdf rich_page [0] empty_state)) = 0
            \<and> gemini_ocr_pages (fst (process_pdf rich_page [0] empty_state)) = 1"
    unfolding rich_page_stats by simp
  have pg: "check_page_has_text (embedded_text (pages rich_page 0))
            \<and> Recognize 1 \<in> set (trace (snd (process_single_page rich_page 0 empty_state)))
            \<and> results_dir (snd (process_single_page rich_page 0 empty_state))
                = Some (fmupd (PageJson 1) (Complete (empty_object_result 1)) fmempty)
            \<and> map_option md_extraction_method (res_metadata (empty_object_result 1))
                = Some ''gemini_2.5_flash_ocr''"
    by (simp add: rich_page_simps rich_text_selected rich_page_worker
          empty_object_result_def gemini_metadata_def)
  from st pg show ?thesis by blast
qed

section \<open>Malformed recognition responses\<close>

text \<open>
  C5 (as amended). A response that \<open>json.loads\<close> rejects with \<open>JSONDecodeError\<close> does not
  fail the recognition: \<open>generate\<close> returns the result whose text is the raw response,
  whose headings, tables and images are empty, whose structure booleans are all false
  and whose raw response is the response, and \<open>process_page_image\<close>, once the limiter is
  entered, returns it with its metadata and records no error. Provided the result can be
  persisted, the worker of a page that has no artifact, opens and renders writes this
  result, reports a success that was not skipped, no error record is produced for the
  page, and the scheduler counts it as a success.
\<close>

theorem malformed_response_degrades:
  assumes "acquire (pages env p) = None" and "response (pages env p) = Inr raw"
    and "json_loads env (clean_response raw) = JSONDecodeError"
  shows "generate (json_loads env) (response (pages env p))
           = Inr \<lparr>res_text = JStr raw, res_headings = JArr [], res_tables = JArr [],
                  res_images = JArr [],
                  res_structure = JObj
                    [(lit ''has_headings'', JBool False), (lit ''has_tables'', JBool False),
                     (lit ''has_lists'', JBool False), (lit ''has_images'', JBool False),
                     (lit ''document_type'', JStr (lit ''unknown''))],
                  res_raw_response = Some raw, res_metadata = None\<rparr>
       \<and> process_page_image env (pages env p) (Suc p) s
           = (Some ((fallback_result raw)
                      \<lparr>res_metadata := Some (gemini_metadata (env_pdf_name env) (Suc p))\<rparr>),
              log_event (Recognize (Suc p)) (log_event (AcquirePermit (Suc p)) s))
       \<and> (\<not> has_result s (Suc p) \<and> open_page (pages env p) = None
            \<and> render (pages env p) = None \<and> save (pages env p) = SaveOk
          \<longrightarrow> fst (process_single_page env p s)
                = \<lparr>pr_page = Suc p, pr_success = True, pr_error = None, pr_skipped = False\<rparr>
            \<and> new_errors s (snd (process_single_page env p s)) = []
            \<and> map_option (\<lambda>d. fmlookup d (PageJson (Suc p)))
                 (results_dir (snd (process_single_page env p s)))
                = Some (Some (Complete ((fallback_result raw)
                      \<lparr>res_metadata := Some (gemini_metadata (env_pdf_name env) (Suc p))\<rparr>)))
            \<and> successful_pages (fst (collect_page env (fst (process_single_page env p s)) st
                                        (snd (process_single_page env p s))))
                = successful_pages st + 1
            \<and> failed_pages (fst (collect_page env (fst (process_single_page env p s)) st
                                    (snd (process_single_page env p s))))
                = failed_pages st
            \<and> new_errors s (snd (collect_page env (fst (process_single_page env p s)) st
                                    (snd (process_single_page env p s)))) = [])"
proof -
  have g: "generate (json_loads env) (response (pages env p)) = Inr (fallback_result raw)"
    using assms by (simp add: generate_def)
  note a = async_fallback [OF assms, of "Suc p"]
  have i: "process_page_image env (pages env p) (Suc p) s
           = (Some ((fallback_result raw)
                      \<lparr>res_metadata := Some (gemini_metadata (env_pdf_name env) (Suc p))\<rparr>),
              log_event (Recognize (Suc p)) (log_event (AcquirePermit (Suc p)) s))"
    using assms(1) by (simp add: process_page_image_def a Let_def)
  have w: "\<not> has_result s (Suc p) \<and> open_page (pages env p) = None
            \<and> render (pages env p) = None \<and> save (pages env p) = SaveOk
          \<longrightarrow> process_single_page env p s
                = (page_success (Suc p),
                   write_file (PageJson (Suc p))
                     (Complete ((fallback_result raw)
                        \<lparr>res_metadata := Some (gemini_metadata (env_pdf_name env) (Suc p))\<rparr>))
                     (log_event (WriteResult (Suc p))
                        (make_results_dir (recognised (Suc p) s))))"
    using psp_recognised [of s p env, OF _ _ _ a] by simp
  show ?thesis
    using g i w
    by (auto simp add: fallback_result_def default_structure_def page_success_def
          new_errors_def state_simps recognised_simps collect_page_counters collect_page_state)
qed

lemma clean_plain: "clean_response (lit ''plain text'') = lit ''plain text''"
  by (simp add: clean_response_def lit_def py_strip_def py_isspace_def startswith_def
        endswith_def fence_def fence_json_def Let_def)

lemma plain_not_json: "scenario_loads (clean_response (lit ''plain text'')) = JSONDecodeError"
proof -
  have "length (lit ''plain text'') \<noteq> length deep_brackets"
    by (simp add: lit_def deep_brackets_def)
  then have "lit ''plain text'' \<noteq> deep_brackets"
    by auto
  then show ?thesis
    by (simp add: clean_plain scenario_loads_def) (simp add: lit_def)
qed

theorem malformed_response_degrades_witness:
  "acquire (pages (one_page SaveOk (Inr (lit ''plain text''))) 0) = None
   \<and> response (pages (one_page SaveOk (Inr (lit ''plain text''))) 0) = Inr (lit ''plain text'')
   \<and> json_loads (one_page SaveOk (Inr (lit ''plain text''))) (clean_response (lit ''plain text''))
       = JSONDecodeError
   \<and> \<not> has_result empty_state (Suc 0)
   \<and> open_page (pages (one_page SaveOk (Inr (lit ''plain text''))) 0) = None
   \<and> render (pages (one_page SaveOk (Inr (lit ''plain text''))) 0) = None
   \<and> save (pages (one_page SaveOk (Inr (lit ''plain text''))) 0) = SaveOk
   \<and> fst (process_single_page (one_page SaveOk (Inr (lit ''plain text''))) 0 empty_state)
       = \<lparr>pr_page = 1, pr_success = True, pr_error = None, pr_skipped = False\<rparr>
   \<and> new_errors empty_state
        (snd (process_single_page (one_page SaveOk (Inr (lit ''plain text''))) 0 empty_state))
       = []
   \<and> map_option (\<lambda>d. fmlookup d (PageJson 1))
        (results_dir
           (snd (process_single_page (one_page SaveOk (Inr (lit ''plain text''))) 0 empty_state)))
       = Some (Some (Complete ((fallback_result (lit ''plain text''))
                                 \<lparr>res_metadata := Some (gemini_metadata ''doc'' 1)\<rparr>)))"
proof -
  let ?env = "one_page SaveOk (Inr (lit ''plain text''))"
  have q: "acquire (pages ?env 0) = None"
    by (simp add: one_page_simps)
  have a: "response (pages ?env 0) = Inr (lit ''plain text'')"
    by (simp add: one_page_simps)
  have b: "json_loads ?env (clean_response (lit ''plain text'')) = JSONDecodeError"
    by (simp add: one_page_simps plain_not_json)
  have h: "\<not> has_result empty_state (Suc 0)"
    by (rule has_result_empty)
  from malformed_response_degrades [OF q a b, of empty_state] q a b h show ?thesis
    by (simp add: one_page_simps)
qed

text \<open>
  A text that neither starts nor ends with whitespace or a backtick is handed to
  \<open>json.loads\<close> as it is.
\<close>

lemma py_strip_plain:
  assumes "t \<noteq> []" and "\<not> py_isspace (hd t)" and "\<not> py_isspace (last t)"
  shows "py_strip t = t"
proof -
  from assms(1,2) have a: "dropWhile py_isspace t = t"
    by (cases t) simp_all
  from assms(1,3) have b: "dropWhile py_isspace (rev t) = rev t"
    by (cases "rev t") (simp_all add: last_rev [symmetric] hd_rev)
  show ?thesis
    by (simp add: py_strip_def a b)
qed

lemma take_Cons_hd: "take n t = c # cs \<Longrightarrow> hd t = c"
  by (cases t; cases n) simp_all

lemma clean_response_plain:
  assumes "t \<noteq> []" and "\<not> py_isspace (hd t)" and "\<not> py_isspace (last t)"
    and "hd t \<noteq> 96" and "last t \<noteq> 96"
  shows "clean_response t = t"
proof -
  have a: "\<not> startswith t fence_json"
  proof
    assume "startswith t fence_json"
    then have "take (length fence_json) t = 96 # [96, 96, 106, 115, 111, 110]"
      by (simp add: startswith_def fence_json_def)
    then have "hd t = 96"
      by (rule take_Cons_hd)
    with assms(4) show False
      by simp
  qed
  have b: "\<not> startswith t fence"
  proof
    assume "startswith t fence"
    then have "take (length fence) t = 96 # [96, 96]"
      by (simp add: startswith_def fence_def)
    then have "hd t = 96"
      by (rule take_Cons_hd)
    with assms(4) show False
      by simp
  qed
  have c: "\<not> endswith t fence"
  proof
    assume e: "endswith t fence"
    then have d: "drop (length t - length fence) t = fence"
      by (simp add: endswith_def)
    have "length t - length fence < length t"
      using assms(1) by (cases t) (simp_all add: fence_def)
    then have "last (drop (length t - length fence) t) = last t"
      by (rule last_drop)
    with d assms(5) show False
      by (simp add: fence_def)
  qed
  show ?thesis
    by (simp add: clean_response_def a b c py_strip_plain [OF assms(1-3)] Let_def)
qed

lemma clean_deep_brackets: "clean_response deep_brackets = deep_brackets"
  by (rule clean_response_plain) (simp_all add: deep_brackets_def py_isspace_def)

lemma deep_brackets_raises:
  "scenario_loads (clean_response deep_brackets)
     = LoadsRaises ''RecursionError: maximum recursion depth exceeded''"
proof -
  have "length deep_brackets \<noteq> length (lit ''{}'')"
    by (simp add: lit_def deep_brackets_def)
  then have "deep_brackets \<noteq> lit ''{}''"
    by auto
  then show ?thesis
    by (simp add: clean_deep_brackets scenario_loads_def)
qed

text \<open>
  C5 as stated fails with nothing but the response at fault: the response is a run of
  100000 opening brackets, which is no JSON and on which \<open>json.loads\<close> raises
  \<open>RecursionError\<close>; the page has no artifact, opens, renders, enters the limiter and
  could be persisted, yet it is a failure, it is counted as failed, and two error
  records are produced for it.
\<close>

theorem malformed_response_counterexample:
  "response (pages (one_page SaveOk (Inr deep_brackets)) 0) = Inr deep_brackets
   \<and> json_loads (one_page SaveOk (Inr deep_brackets)) (clean_response deep_brackets)
       = LoadsRaises ''RecursionError: maximum recursion depth exceeded''
   \<and> acquire (pages (one_page SaveOk (Inr deep_brackets)) 0) = None
   \<and> save (pages (one_page SaveOk (Inr deep_brackets)) 0) = SaveOk
   \<and> generate (json_loads (one_page SaveOk (Inr deep_brackets)))
        (response (pages (one_page SaveOk (Inr deep_brackets)) 0))
       = Inl ''RecursionError: maximum recursion depth exceeded''
   \<and> fst (process_single_page (one_page SaveOk (Inr deep_brackets)) 0 empty_state)
       = \<lparr>pr_page = 1, pr_success = False, pr_error = Some ''OCR returned no result'',
          pr_skipped = False\<rparr>
   \<and> errors (snd (process_single_page (one_page SaveOk (Inr deep_brackets)) 0 empty_state))
       = [\<lparr>err_pdf_file = ''doc.pdf'', err_page = Page 1, err_stage = ''gemini_ocr_processing'',
            err_error = Some ''RecursionError: maximum recursion depth exceeded''\<rparr>]
   \<and> successful_pages (fst (process_pdf (one_page SaveOk (Inr deep_brackets)) [0] empty_state))
       = 0
   \<and> failed_pages (fst (process_pdf (one_page SaveOk (Inr deep_brackets)) [0] empty_state)) = 1
   \<and> map err_stage
        (errors (snd (process_pdf (one_page SaveOk (Inr deep_brackets)) [0] empty_state)))
       = [''gemini_ocr_processing'', ''page_processing'']"
proof -
  let ?e = "one_page SaveOk (Inr deep_brackets)"
  have h: "\<not> has_result empty_state (Suc 0)"
    by (rule has_result_empty)
  have g: "generate (json_loads ?e) (response (pages ?e 0))
           = Inl ''RecursionError: maximum recursion depth exceeded''"
    by (simp add: generate_def one_page_simps deep_brackets_raises)
  have a: "\<And>k. process_page_image_async ?e (pages ?e 0) k
           = Inl ''RecursionError: maximum recursion depth exceeded''"
    using g by (simp add: process_page_image_async_def one_page_simps)
  have w: "\<And>s. \<not> has_result s (Suc 0) \<Longrightarrow> process_single_page ?e 0 s =
     (page_failure 1 ''OCR returned no result'',
      add_error \<lparr>err_pdf_file = ''doc.pdf'', err_page = Page 1,
                 err_stage = ''gemini_ocr_processing'',
                 err_error = Some ''RecursionError: maximum recursion depth exceeded''\<rparr>
        (requested (pages ?e 0) 1 s))"
    using psp_not_recognised [of _ 0 ?e, OF _ _ _ a]
    by (simp add: one_page_simps)
  have w1: "fst (process_single_page ?e 0 empty_state)
       = \<lparr>pr_page = 1, pr_success = False, pr_error = Some ''OCR returned no result'',
          pr_skipped = False\<rparr>"
    by (simp add: w [OF h] page_failure_def)
  have w2: "errors (snd (process_single_page ?e 0 empty_state))
       = [\<lparr>err_pdf_file = ''doc.pdf'', err_page = Page 1, err_stage = ''gemini_ocr_processing'',
            err_error = Some ''RecursionError: maximum recursion depth exceeded''\<rparr>]"
    by (simp add: w [OF h] state_simps requested_simps empty_state_simps)
  have hs: "\<not> has_result (start_state ?e empty_state) (Suc 0)"
    by (simp add: start_state_simps has_result_empty)
  have c: "fst (process_pdf ?e [0] empty_state)
           = (start_stats ?e 1)\<lparr>failed_pages := 1, status := CompletedWithErrors\<rparr>"
    by (simp add: process_pdf_loop [where n = 1 and env = ?e and s = empty_state,
                                    OF one_page_not_complete]
          one_page_simps finish_pdf_simps w [OF hs] collect_page_def page_failure_def
          start_stats_def Let_def)
  have d: "map err_stage (errors (snd (process_pdf ?e [0] empty_state)))
           = [''gemini_ocr_processing'', ''page_processing'']"
    by (simp add: process_pdf_loop [where n = 1 and env = ?e and s = empty_state,
                                    OF one_page_not_complete]
          one_page_simps finish_pdf_simps w [OF hs] collect_page_def page_failure_def
          start_stats_def Let_def state_simps requested_simps start_state_simps
          empty_state_simps)
  from g w1 w2 c d show ?thesis
    by (simp add: one_page_simps deep_brackets_raises start_stats_def)
qed

section \<open>One failing page\<close>

lemma page_fails_iff:
  "exists_check (pages env p) = None \<Longrightarrow> page_fails env p \<longleftrightarrow> \<not> worker_succeeds env p"
  by (auto simp add: page_fails_def worker_succeeds_def recognition_ok_def fresh_page_def
        process_single_page_def process_page_image_def save_page_result_def Let_def
        has_result_empty page_failure_def
      split: option.splits sum.splits save_outcome.splits)

lemma page_errors_page: "r \<in> set (page_errors env p) \<Longrightarrow> err_page r = Page (Suc p)"
  by (auto simp add: page_errors_def fresh_page_def
        process_single_page_def process_page_image_def save_page_result_def Let_def
        has_result_empty state_simps empty_state_simps
      split: option.splits sum.splits save_outcome.splits if_splits)

lemma page_errors_recognition_fails:
  assumes "open_page (pages env p) = None" and "render (pages env p) = None"
    and "process_page_image_async env (pages env p) (Suc p) = Inl e"
  shows "page_errors env p =
           [\<lparr>err_pdf_file = env_pdf_name env @ ''.pdf'', err_page = Page (Suc p),
              err_stage = ''gemini_ocr_processing'', err_error = Some e\<rparr>,
            \<lparr>err_pdf_file = env_pdf_file env, err_page = Page (Suc p),
              err_stage = ''page_processing'', err_error = Some ''OCR returned no result''\<rparr>]"
  using psp_not_recognised [OF has_result_empty assms]
  by (simp add: page_errors_def page_fails_def fresh_page_def page_failure_def state_simps
        requested_simps empty_state_simps)

lemma filter_eq_single:
  "distinct ps \<Longrightarrow> f \<in> set ps \<Longrightarrow> \<forall>p \<in> set ps. P p = (p = f) \<Longrightarrow> filter P ps = [f]"
proof (induction ps)
  case Nil
  then show ?case by simp
next
  case (Cons a ps)
  show ?case
  proof (cases "a = f")
    case True
    with Cons.prems have "\<forall>p \<in> set ps. \<not> P p" by auto
    then have "filter P ps = []" by (simp add: filter_empty_conv)
    with True Cons.prems show ?thesis by simp
  next
    case False
    with Cons show ?thesis by auto
  qed
qed

lemma filter_concat_single:
  "distinct ps \<Longrightarrow> f \<in> set ps \<Longrightarrow> \<forall>p \<in> set ps. p \<noteq> f \<longrightarrow> filter Q (g p) = [] \<Longrightarrow>
   filter Q (concat (map g ps)) = filter Q (g f)"
proof (induction ps)
  case Nil
  then show ?case by simp
next
  case (Cons a ps)
  show ?case
  proof (cases "a = f")
    case True
    with Cons.prems have "\<forall>p \<in> set ps. filter Q (g p) = []" by auto
    then have "filter Q (concat (map g ps)) = []"
      by (induction ps) simp_all
    with True show ?thesis by simp
  next
    case False
    with Cons show ?thesis by auto
  qed
qed


lemma process_pdf_local:
  assumes nc: "\<not> is_complete env s" and od: "open_document env = Inr n"
    and tm: "temp_mkdir env = None" and perm: "mset order = mset [0..<n]"
    and ok: "\<forall>p<n. exists_check (pages env p) = None"
  shows "failed_pages (fst (process_pdf env order s))
           = length [p \<leftarrow> order. \<not> has_result s (Suc p) \<and> page_fails env p]"
    and "status (fst (process_pdf env order s))
           = (if failed_pages (fst (process_pdf env order s)) = 0 then Completed
              else CompletedWithErrors)"
    and "new_errors s (snd (process_pdf env order s))
           = concat (map (\<lambda>p. if has_result s (Suc p) then [] else page_errors env p) order)"
proof -
  have d: "distinct order"
    using perm by (rule schedule_facts)
  have H: "\<forall>p \<in> set order. has_result (start_state env s) (Suc p) = has_result s (Suc p)"
    by (simp add: start_state_simps)
  have ok': "\<forall>p \<in> set order. exists_check (pages env p) = None"
    using ok schedule_facts(2) [OF perm] by simp
  note L = process_pages_local [OF d H ok', of "start_stats env n"]
  note P = process_pdf_processing [OF nc od tm ok']
  show "failed_pages (fst (process_pdf env order s))
           = length [p \<leftarrow> order. \<not> has_result s (Suc p) \<and> page_fails env p]"
    using L by (simp add: P finish_pdf_simps start_stats_def)
  show "status (fst (process_pdf env order s))
           = (if failed_pages (fst (process_pdf env order s)) = 0 then Completed
              else CompletedWithErrors)"
    by (simp add: P finish_pdf_simps)
  show "new_errors s (snd (process_pdf env order s))
           = concat (map (\<lambda>p. if has_result s (Suc p) then [] else page_errors env p) order)"
    using L by (simp add: P finish_pdf_simps new_errors_def start_state_simps)
qed

text \<open>
  The scheduler on a document in which the recognition of one page fails. In a document
  of \<open>n\<close> pages that opens, that the resumability check does not find complete and in
  which no test of a result file raises, let the recognition of exactly one page fail (the page has no artifact, opens and
  renders) while every other page has an artifact or a worker that succeeds. Then,
  whatever the order in which the pages complete, the document has one failed page and
  \<open>n - 1\<close> successful ones and the status \<open>completed_with_errors\<close>, the worker of the
  failing page returns a failure result, and the error records of that page are two:
  one of the recognition stage with the exception's message, one of the scheduler with
  the stage \<open>page_processing\<close>.
\<close>

lemma one_failing_page:
  assumes "\<not> is_complete env s" and "open_document env = Inr n" and "temp_mkdir env = None"
    and "mset order = mset [0..<n]"
    and "f < n" and "\<not> has_result s (Suc f)"
    and "open_page (pages env f) = None" and "render (pages env f) = None"
    and "process_page_image_async env (pages env f) (Suc f) = Inl e"
    and "\<forall>p<n. p \<noteq> f \<longrightarrow> has_result s (Suc p) \<or> worker_succeeds env p"
    and "\<forall>p<n. exists_check (pages env p) = None"
  shows "failed_pages (fst (process_pdf env order s)) = 1
       \<and> successful_pages (fst (process_pdf env order s)) = n - 1
       \<and> total_pages (fst (process_pdf env order s)) = n
       \<and> status (fst (process_pdf env order s)) = CompletedWithErrors
       \<and> fst (process_single_page env f s)
           = \<lparr>pr_page = Suc f, pr_success = False,
              pr_error = Some ''OCR returned no result'', pr_skipped = False\<rparr>
       \<and> [r \<leftarrow> new_errors s (snd (process_pdf env order s)). err_page r = Page (Suc f)]
           = [\<lparr>err_pdf_file = env_pdf_name env @ ''.pdf'', err_page = Page (Suc f),
                err_stage = ''gemini_ocr_processing'', err_error = Some e\<rparr>,
              \<lparr>err_pdf_file = env_pdf_file env, err_page = Page (Suc f),
                err_stage = ''page_processing'',
                err_error = Some ''OCR returned no result''\<rparr>]"
proof -
  note sched = schedule_facts [OF assms(4)]
  note loc = process_pdf_local [OF assms(1-4) assms(11)]
  have ok: "\<forall>p \<in> set order. exists_check (pages env p) = None"
    using assms(11) sched(2) by simp
  have fin: "f \<in> set order"
    using sched(2) assms(5) by simp
  have ff: "page_fails env f"
    using assms(5,9,11) by (simp add: page_fails_iff worker_succeeds_def recognition_ok_def)
  have only: "\<forall>p \<in> set order. (\<not> has_result s (Suc p) \<and> page_fails env p) = (p = f)"
    using sched(2) assms(6,10,11) ff by (auto simp add: page_fails_iff)
  have failed: "failed_pages (fst (process_pdf env order s)) = 1"
    by (simp add: loc(1) filter_eq_single [OF sched(1) fin only])
  note cnt = process_pages_counters [OF ok, of "start_stats env n" "start_state env s"]
  have tot: "total_pages (fst (process_pdf env order s)) = n"
    and sum: "successful_pages (fst (process_pdf env order s))
              + failed_pages (fst (process_pdf env order s)) = n"
    using cnt sched(3)
      process_pages_fixed [of env order "start_stats env n" "start_state env s"]
    by (simp_all add: process_pdf_processing [OF assms(1-3) ok] finish_pdf_simps
          start_stats_def)
  have succ: "successful_pages (fst (process_pdf env order s)) = n - 1"
    using sum failed by simp
  have st: "status (fst (process_pdf env order s)) = CompletedWithErrors"
    using loc(2) failed by simp
  have res: "fst (process_single_page env f s)
           = \<lparr>pr_page = Suc f, pr_success = False,
              pr_error = Some ''OCR returned no result'', pr_skipped = False\<rparr>"
    by (simp add: psp_not_recognised [OF assms(6-9)] page_failure_def)
  let ?g = "\<lambda>p. if has_result s (Suc p) then [] else page_errors env p"
  have others: "\<forall>p \<in> set order. p \<noteq> f \<longrightarrow>
                  filter (\<lambda>r. err_page r = Page (Suc f)) (?g p) = []"
    by (auto simp add: filter_empty_conv dest: page_errors_page)
  have "[r \<leftarrow> new_errors s (snd (process_pdf env order s)). err_page r = Page (Suc f)]
          = filter (\<lambda>r. err_page r = Page (Suc f)) (?g f)"
    unfolding loc(3) using sched(1) fin others by (rule filter_concat_single)
  also have "\<dots> = [\<lparr>err_pdf_file = env_pdf_name env @ ''.pdf'', err_page = Page (Suc f),
                err_stage = ''gemini_ocr_processing'', err_error = Some e\<rparr>,
              \<lparr>err_pdf_file = env_pdf_file env, err_page = Page (Suc f),
                err_stage = ''page_processing'',
                err_error = Some ''OCR returned no result''\<rparr>]"
    using assms(6) by (simp add: page_errors_recognition_fails [OF assms(7-9)])
  finally show ?thesis
    using failed succ tot st res by simp
qed

lemma scenario_worker_succeeds: "p \<noteq> 2 \<Longrightarrow> worker_succeeds scenario_env p"
  by (simp add: worker_succeeds_def recognition_ok_def scenario_simps scenario_async)

lemma one_failing_page_example:
  "\<not> is_complete scenario_env empty_state \<and> open_document scenario_env = Inr 3
   \<and> temp_mkdir scenario_env = None \<and> mset [2, 0, 1] = mset [0..<3]
   \<and> (2::nat) < 3 \<and> \<not> has_result empty_state (Suc 2)
   \<and> open_page (pages scenario_env 2) = None \<and> render (pages scenario_env 2) = None
   \<and> process_page_image_async scenario_env (pages scenario_env 2) (Suc 2)
       = Inl ''quota exceeded''
   \<and> worker_succeeds scenario_env 0 \<and> worker_succeeds scenario_env 1
   \<and> failed_pages (fst (process_pdf scenario_env [2, 0, 1] empty_state)) = 1
   \<and> successful_pages (fst (process_pdf scenario_env [2, 0, 1] empty_state)) = 2
   \<and> status (fst (process_pdf scenario_env [2, 0, 1] empty_state)) = CompletedWithErrors
   \<and> [r \<leftarrow> new_errors empty_state (snd (process_pdf scenario_env [2, 0, 1] empty_state)).
        err_page r = Page 3]
       = [\<lparr>err_pdf_file = ''doc.pdf'', err_page = Page 3,
            err_stage = ''gemini_ocr_processing'', err_error = Some ''quota exceeded''\<rparr>,
          \<lparr>err_pdf_file = ''doc.pdf'', err_page = Page 3, err_stage = ''page_processing'',
            err_error = Some ''OCR returned no result''\<rparr>]"
proof -
  have a: "\<not> is_complete scenario_env empty_state"
    by (rule scenario_is_not_complete)
  have b: "open_document scenario_env = Inr 3" and c: "temp_mkdir scenario_env = None"
    by (simp_all add: scenario_simps)
  have d: "mset [2, 0, 1] = mset [0..<(3::nat)]"
    by (simp del: mset_upt add: eval_nat_numeral add_mset_commute)
  have e: "(2::nat) < 3" by simp
  have f: "\<not> has_result empty_state (Suc 2)"
    by (rule has_result_empty)
  have g: "open_page (pages scenario_env 2) = None" and h: "render (pages scenario_env 2) = None"
    by (simp_all add: scenario_simps)
  have i: "process_page_image_async scenario_env (pages scenario_env 2) (Suc 2)
             = Inl ''quota exceeded''"
    by (simp add: scenario_async)
  have j: "\<forall>p<3. p \<noteq> 2 \<longrightarrow> has_result empty_state (Suc p) \<or> worker_succeeds scenario_env p"
    by (simp add: scenario_worker_succeeds)
  have k: "worker_succeeds scenario_env 0 \<and> worker_succeeds scenario_env 1"
    by (simp add: scenario_worker_succeeds)
  have l: "\<forall>p<3. exists_check (pages scenario_env p) = None"
    by (simp add: scenario_simps)
  from one_failing_page [OF a b c d e f g h i j l] a b c d f g h i k
  show ?thesis
    by (simp add: scenario_simps)
qed

text \<open>
  C7. In the three-page scenario, where the recognition of page 3 alone fails, the
  document has one failed page, two successful ones and the status
  \<open>completed_with_errors\<close>, as the claim says; but the error list holds two records for
  page 3 where the claim has exactly one.
\<close>

theorem single_recognition_failure_two_records:
  "process_page_image_async scenario_env (pages scenario_env 2) 3 = Inl ''quota exceeded''
   \<and> failed_pages (fst (process_pdf scenario_env [0, 1, 2] empty_state)) = 1
   \<and> successful_pages (fst (process_pdf scenario_env [0, 1, 2] empty_state)) = 2
   \<and> status (fst (process_pdf scenario_env [0, 1, 2] empty_state)) = CompletedWithErrors
   \<and> length [r \<leftarrow> errors (snd (process_pdf scenario_env [0, 1, 2] empty_state)).
               err_page r = Page 3] = 2"
proof -
  have a: "process_page_image_async scenario_env (pages scenario_env 2) 3
             = Inl ''quota exceeded''"
    by (simp add: scenario_async)
  have b: "failed_pages (fst (process_pdf scenario_env [0, 1, 2] empty_state)) = 1
           \<and> successful_pages (fst (process_pdf scenario_env [0, 1, 2] empty_state)) = 2
           \<and> status (fst (process_pdf scenario_env [0, 1, 2] empty_state))
               = CompletedWithErrors"
    unfolding scenario_stats by simp
  have c: "length [r \<leftarrow> errors (snd (process_pdf scenario_env [0, 1, 2] empty_state)).
               err_page r = Page 3] = 2"
    unfolding scenario_errors by simp
  from a b c show ?thesis by blast
qed


section \<open>Pages that already have an artifact\<close>



lemma page_events_cases:
  "page_events env p = [OpenPage (Suc p)]
   \<or> page_events env p = [OpenPage (Suc p), RenderPage (Suc p)]
   \<or> page_events env p = [OpenPage (Suc p), RenderPage (Suc p), AcquirePermit (Suc p)]
   \<or> page_events env p
       = [OpenPage (Suc p), RenderPage (Suc p), AcquirePermit (Suc p), Recognize (Suc p)]
   \<or> page_events env p
       = [OpenPage (Suc p), RenderPage (Suc p), AcquirePermit (Suc p), Recognize (Suc p),
          WriteResult (Suc p)]"
  by (auto simp add: page_events_def fresh_page_def
        process_single_page_def process_page_image_def save_page_result_def Let_def
        has_result_empty state_simps empty_state_simps
      split: option.splits sum.splits save_outcome.splits dest: async_entered)











section \<open>The resumability check\<close>










section \<open>Recognition calls and the rate limiter\<close>

lemma guarded_from_append:
  "guarded_from prev xs \<Longrightarrow> (\<forall>q. guarded_from q ys) \<Longrightarrow> guarded_from prev (xs @ ys)"
  by (induction xs arbitrary: prev) simp_all

lemma page_events_guarded: "guarded_from prev (page_events env p)"
  using page_events_cases [of env p] by auto

lemma page_events_recognize:
  "Recognize q \<in> set (page_events env p) \<Longrightarrow> q = Suc p \<and> acquire (pages env p) = None"
  by (auto simp add: page_events_def fresh_page_def
        process_single_page_def process_page_image_def save_page_result_def Let_def
        has_result_empty state_simps empty_state_simps
      split: option.splits sum.splits save_outcome.splits if_splits)

text \<open>
  Every operation extends the trace by events in which each recognition call directly
  follows the request of its permit, whatever the event before them.
\<close>

lemma psp_extends:
  "\<exists>es. trace (snd (process_single_page env p s)) = trace s @ es \<and> (\<forall>q. guarded_from q es)"
proof (cases "has_result s (Suc p)")
  case True
  then show ?thesis
    by (simp add: psp_skip)
next
  case False
  then show ?thesis
    by (simp add: worker_effects(1) page_events_guarded)
qed

lemma extends_trans:
  assumes "\<exists>es. trace s1 = trace s @ es \<and> (\<forall>q. guarded_from q es)"
    and "\<exists>es. trace s2 = trace s1 @ es \<and> (\<forall>q. guarded_from q es)"
  shows "\<exists>es. trace s2 = trace s @ es \<and> (\<forall>q. guarded_from q es)"
proof -
  from assms(1) obtain es1 where a: "trace s1 = trace s @ es1" "\<forall>q. guarded_from q es1"
    by blast
  from assms(2) obtain es2 where b: "trace s2 = trace s1 @ es2" "\<forall>q. guarded_from q es2"
    by blast
  have "trace s2 = trace s @ (es1 @ es2)"
    by (simp add: a(1) b(1))
  moreover have "\<forall>q. guarded_from q (es1 @ es2)"
    using a(2) b(2) by (simp add: guarded_from_append)
  ultimately show ?thesis
    by blast
qed

lemma collect_page_trace: "trace (snd (collect_page env r st s)) = trace s"
  by (simp add: collect_page_state state_simps)

lemma run_uncollected_extends:
  "\<exists>es. trace (run_uncollected env ps s) = trace s @ es \<and> (\<forall>q. guarded_from q es)"
proof (induction ps arbitrary: s)
  case Nil
  show ?case by simp
next
  case (Cons p ps)
  show ?case
  proof (cases "exists_check (pages env p)")
    case (Some e)
    then show ?thesis
      using Cons.IH [of s] by simp
  next
    case None
    have "\<exists>es. trace (run_uncollected env ps (snd (process_single_page env p s)))
                 = trace s @ es \<and> (\<forall>q. guarded_from q es)"
      using psp_extends [of env p s] Cons.IH [of "snd (process_single_page env p s)"]
      by (rule extends_trans)
    with None show ?thesis
      by simp
  qed
qed

lemma process_pages_extends:
  "\<exists>es. trace (snd (process_pages env ps st s)) = trace s @ es \<and> (\<forall>q. guarded_from q es)"
proof (induction ps arbitrary: st s)
  case Nil
  show ?case by simp
next
  case (Cons p ps)
  show ?case
  proof (cases "exists_check (pages env p)")
    case (Some e)
    then show ?thesis
      using run_uncollected_extends [of env ps s] by simp
  next
    case None
    let ?r = "fst (process_single_page env p s)"
    let ?s1 = "snd (process_single_page env p s)"
    let ?st1 = "fst (collect_page env ?r st ?s1)"
    let ?s2 = "snd (collect_page env ?r st ?s1)"
    have a: "\<exists>es. trace ?s2 = trace s @ es \<and> (\<forall>q. guarded_from q es)"
      using psp_extends [of env p s] by (simp add: collect_page_trace)
    have "\<exists>es. trace (snd (process_pages env ps ?st1 ?s2)) = trace s @ es
                \<and> (\<forall>q. guarded_from q es)"
      using a Cons.IH [of ?st1 ?s2] by (rule extends_trans)
    with None show ?thesis
      by (simp add: case_prod_beta)
  qed
qed

lemma process_pdf_extends:
  "\<exists>es. trace (snd (process_pdf env order s)) = trace s @ es \<and> (\<forall>q. guarded_from q es)"
proof -
  let ?s1 = "snd (is_pdf_already_processed env s)"
  let ?s2 = "log_event OpenDocument ?s1"
  have e1: "\<exists>es. trace ?s1 = trace s @ es \<and> (\<forall>q. guarded_from q es)"
    by (simp add: precheck_state state_simps)
  have "\<exists>es. trace ?s2 = trace ?s1 @ es \<and> (\<forall>q. guarded_from q es)"
    by (simp add: state_simps)
  with e1 have e2: "\<exists>es. trace ?s2 = trace s @ es \<and> (\<forall>q. guarded_from q es)"
    by (rule extends_trans)
  have e3: "\<exists>es. trace (snd (process_pages env order st ?s2)) = trace s @ es
                  \<and> (\<forall>q. guarded_from q es)" for st
    using e2 process_pages_extends [of env order st ?s2] by (rule extends_trans)
  have c: "(\<exists>st. trace (snd (process_pdf env order s))
                   = trace (snd (process_pages env order st ?s2)))
           \<or> trace (snd (process_pdf env order s)) = trace ?s2
           \<or> trace (snd (process_pdf env order s)) = trace ?s1"
  proof -
    obtain c t e s1 where pc: "is_pdf_already_processed env s = ((c, t, e), s1)"
      by (cases "is_pdf_already_processed env s") auto
    show ?thesis
    proof (cases "c \<or> open_document env = Inl (projl (open_document env))
                    \<or> temp_mkdir env \<noteq> None")
      case True
      then show ?thesis
        by (auto simp add: process_pdf_def pc Let_def pdf_open_failed_simps
            split: sum.splits option.splits)
    next
      case False
      then obtain n where od: "open_document env = Inr n"
        by (cases "open_document env") auto
      obtain x st2 s3 where pp:
        "process_pages env order
           \<lparr>pdf_name = env_pdf_name env, pdf_file = env_pdf_file env, total_pages = n,
            successful_pages = 0, failed_pages = 0, conventional_pages = 0,
            gemini_ocr_pages = 0, skipped_pages = Some 0, status = Processing\<rparr>
           (log_event OpenDocument s1) = ((x, st2), s3)"
        by (metis surj_pair)
      have "trace (snd (process_pdf env order s)) = trace s3"
        using False od
        by (cases x)
          (simp_all add: process_pdf_def pc pp Let_def pdf_open_failed_simps finish_pdf_simps)
      moreover have "trace s3
        = trace (snd (process_pages env order
           \<lparr>pdf_name = env_pdf_name env, pdf_file = env_pdf_file env, total_pages = n,
            successful_pages = 0, failed_pages = 0, conventional_pages = 0,
            gemini_ocr_pages = 0, skipped_pages = Some 0, status = Processing\<rparr> ?s2))"
        by (simp add: pc pp)
      ultimately show ?thesis
        by metis
    qed
  qed
  from c e1 e2 e3 show ?thesis
    by metis
qed

lemma process_pdf_guarded: "calls_guarded (new_events s (snd (process_pdf env order s)))"
proof -
  from process_pdf_extends [of env order s] obtain es
    where "trace (snd (process_pdf env order s)) = trace s @ es" "\<forall>q. guarded_from q es"
    by blast
  then show ?thesis
    by (simp add: calls_guarded_def new_events_def)
qed

lemma psp_recognize_entered:
  assumes "Recognize (Suc p) \<in> set (new_events s (snd (process_single_page env p s)))"
  shows "acquire (pages env p) = None"
proof (cases "has_result s (Suc p)")
  case True
  with assms show ?thesis
    by (simp add: psp_skip new_events_def)
next
  case False
  with assms have "Recognize (Suc p) \<in> set (page_events env p)"
    by (simp add: worker_effects(1) new_events_def)
  then show ?thesis
    by (simp add: page_events_recognize)
qed

text \<open>
  In an admissible run of the limiter, a release and the one \<open>R\<close> releases later are at
  least a window apart.
\<close>

lemma window_step:
  assumes "admissible R W ts" and "i + R < length ts"
  shows "ts ! i + W \<le> ts ! (i + R)"
proof (rule ccontr)
  assume "\<not> ts ! i + W \<le> ts ! (i + R)"
  then have lt: "ts ! (i + R) < ts ! i + W"
    by simp
  from assms(2) have "ts ! i \<in> set ts"
    by simp
  with assms(1) have b: "length [u \<leftarrow> ts. ts ! i \<le> u \<and> u < ts ! i + W] \<le> R"
    by (simp add: admissible_def list_all_iff)
  from assms(1) have s: "sorted ts"
    by (simp add: admissible_def)
  have sub: "{i..i + R} \<subseteq> {k. k < length ts \<and> ts ! i \<le> ts ! k \<and> ts ! k < ts ! i + W}"
  proof
    fix k assume "k \<in> {i..i + R}"
    then have k: "i \<le> k" "k \<le> i + R"
      by simp_all
    with assms(2) have kl: "k < length ts"
      by simp
    have "ts ! i \<le> ts ! k"
      using s k(1) kl by (rule sorted_nth_mono)
    moreover have "ts ! k \<le> ts ! (i + R)"
      using s k(2) assms(2) by (rule sorted_nth_mono)
    ultimately show "k \<in> {k. k < length ts \<and> ts ! i \<le> ts ! k \<and> ts ! k < ts ! i + W}"
      using kl lt by simp
  qed
  have "card {i..i + R} \<le> card {k. k < length ts \<and> ts ! i \<le> ts ! k \<and> ts ! k < ts ! i + W}"
    using sub by (rule card_mono [rotated]) simp
  also have "\<dots> = length [u \<leftarrow> ts. ts ! i \<le> u \<and> u < ts ! i + W]"
    by (simp add: length_filter_conv_card)
  finally show False
    using b by simp
qed

lemma window_steps:
  assumes "admissible R W ts" and "k * R < length ts"
  shows "ts ! 0 + k * W \<le> ts ! (k * R)"
  using assms(2)
proof (induction k)
  case 0
  show ?case by simp
next
  case (Suc k)
  from Suc.prems have l: "k * R + R < length ts"
    by (simp add: add.commute)
  then have "k * R < length ts"
    by simp
  then have "ts ! 0 + k * W \<le> ts ! (k * R)"
    by (rule Suc.IH)
  moreover have "ts ! (k * R) + W \<le> ts ! (k * R + R)"
    using assms(1) l by (rule window_step)
  ultimately show ?case
    by (simp add: add.commute)
qed

lemma limiter_bound:
  assumes "admissible R W ts" and "1 \<le> R" and "ts \<noteq> []"
  shows "((length ts - 1) div R) * W \<le> span ts"
proof -
  let ?k = "(length ts - 1) div R"
  have le: "?k * R \<le> length ts - 1"
    by simp
  from assms(3) have pos: "length ts - 1 < length ts"
    by (cases ts) simp_all
  from le pos have kl: "?k * R < length ts"
    by (rule le_less_trans)
  from assms(1) have s: "sorted ts"
    by (simp add: admissible_def)
  have "ts ! 0 + ?k * W \<le> ts ! (?k * R)"
    using assms(1) kl by (rule window_steps)
  also have "\<dots> \<le> ts ! (length ts - 1)"
    using s le pos by (rule sorted_nth_mono)
  finally have "hd ts + ?k * W \<le> last ts"
    using assms(3) by (simp add: hd_conv_nth last_conv_nth)
  then show ?thesis
    by (simp add: span_def)
qed

text \<open>
  C9 (as amended). In every run of \<open>process_pdf\<close> each call of the recognition service
  directly follows the request of a permit for its page at the one limiter of the
  pipeline, and a worker makes the call only when the limiter was entered. In a run of
  a limiter that releases at most \<open>R\<close> permits in a window of \<open>W\<close> ticks, \<open>B\<close> releases
  take at least \<open>(B - 1) div R\<close> windows from the first to the last; for the limiter that
  the pipeline configures, one permit per window, this is the bound of the claim.
\<close>

theorem recognition_calls_rate_limited:
  "calls_guarded (new_events s (snd (process_pdf env order s)))
   \<and> (Recognize (Suc p) \<in> set (new_events s (snd (process_single_page env p s)))
        \<longrightarrow> acquire (pages env p) = None)
   \<and> (admissible R W ts \<and> 1 \<le> R \<and> ts \<noteq> [] \<longrightarrow> ((length ts - 1) div R) * W \<le> span ts)
   \<and> (admissible MAX_RATE TIME_PERIOD ts \<and> ts \<noteq> []
        \<longrightarrow> claimed_bound MAX_RATE (length ts) * TIME_PERIOD \<le> span ts)"
proof -
  have d: "claimed_bound MAX_RATE (length ts) * TIME_PERIOD \<le> span ts"
    if "admissible MAX_RATE TIME_PERIOD ts" "ts \<noteq> []"
    using limiter_bound [OF that(1) _ that(2)]
    by (simp add: claimed_bound_def MAX_RATE_def TIME_PERIOD_def)
  show ?thesis
    using process_pdf_guarded [of s env order] psp_recognize_entered [of p s env]
      limiter_bound [of R W ts] d
    by blast
qed

theorem recognition_calls_rate_limited_witness:
  "Recognize (Suc 0)
     \<in> set (new_events empty_state (snd (process_single_page rich_page 0 empty_state)))
   \<and> acquire (pages rich_page 0) = None
   \<and> calls_guarded (new_events empty_state (snd (process_pdf rich_page [0] empty_state)))
   \<and> admissible 1 1 [0, 1, 2] \<and> (1::nat) \<le> 1 \<and> [0, 1, 2::nat] \<noteq> []
   \<and> admissible MAX_RATE TIME_PERIOD [0, 1, 2]
   \<and> ((length [0, 1, 2::nat] - 1) div 1) * 1 \<le> span [0, 1, 2]
   \<and> claimed_bound MAX_RATE (length [0, 1, 2::nat]) * TIME_PERIOD \<le> span [0, 1, 2]"
proof -
  have a: "Recognize (Suc 0)
     \<in> set (new_events empty_state (snd (process_single_page rich_page 0 empty_state)))"
    by (simp add: rich_page_worker new_events_def empty_state_simps)
  have b: "admissible 1 1 [0, 1, 2]"
    by (simp add: admissible_def)
  have c: "admissible MAX_RATE TIME_PERIOD [0, 1, 2]"
    by (simp add: admissible_def MAX_RATE_def TIME_PERIOD_def)
  from recognition_calls_rate_limited [of empty_state rich_page "[0]" 0 1 1 "[0, 1, 2]"] a b c
  show ?thesis
    by simp
qed

text \<open>
  C9 as stated fails for a limiter of two permits per second: it may release both at
  once, so that two calls take no time where the claim has at least one second.
\<close>

theorem recognition_calls_rate_limited_counterexample:
  "admissible 2 1 [0, 0] \<and> length [0, 0::nat] = 2
   \<and> claimed_bound 2 2 = 1 \<and> span [0, 0] = 0
   \<and> span [0, 0] < claimed_bound 2 (length [0, 0::nat])"
  by (simp add: admissible_def span_def claimed_bound_def)

end
